theory Spec2Isabelle
  imports Complex_Main "HOL-Library.Multiset"
begin

section \<open>Time\<close>

text \<open>
  A naive \<^verbatim>\<open>datetime\<close> is the number of microseconds since 0001-01-01T00:00:00, the
  smallest value of the type; day 0 of this count (ordinal 1) is a Monday. A
  \<^verbatim>\<open>timedelta\<close> is a number of microseconds. Python's datetimes are bounded:
  \<^verbatim>\<open>datetime.max\<close> is 9999-12-31T23:59:59.999999 (ordinal 3652059), and an addition that
  leaves the range raises \<^verbatim>\<open>OverflowError\<close>. A timedelta too large to be built is larger
  than the whole datetime range, so building it and adding it raise the same error at
  the same place, and one range check on the sum stands for both.
\<close>

type_synonym datetime = int

definition us_per_minute :: int where
  "us_per_minute = 60000000"

definition us_per_hour :: int where
  "us_per_hour = 3600000000"

definition us_per_day :: int where
  "us_per_day = 86400000000"

definition datetime_max :: datetime where
  "datetime_max = 3652059 * us_per_day - 1"

datatype error = ValueError | OverflowError

text \<open>A computation returns \<open>Some (Inr v)\<close>, raises (\<open>Some (Inl e)\<close>), or runs forever (\<open>None\<close>).\<close>

type_synonym 'a result = "(error + 'a) option"

text \<open>\<^verbatim>\<open>timedelta(days=d, hours=h, minutes=m)\<close>\<close>

definition timedelta :: "int \<Rightarrow> int \<Rightarrow> int \<Rightarrow> int" where
  "timedelta d h m = d * us_per_day + h * us_per_hour + m * us_per_minute"

text \<open>\<^verbatim>\<open>datetime + timedelta\<close>\<close>

definition datetime_add :: "datetime \<Rightarrow> int \<Rightarrow> error + datetime" where
  "datetime_add t d = (if 0 \<le> t + d \<and> t + d \<le> datetime_max then Inr (t + d) else Inl OverflowError)"

text \<open>\<^verbatim>\<open>t.date()\<close>, as the number of whole days since 0001-01-01.\<close>

definition date :: "datetime \<Rightarrow> int" where
  "date t = t div us_per_day"

text \<open>\<^verbatim>\<open>datetime.combine(d, time(hour, minute))\<close>\<close>

definition combine :: "int \<Rightarrow> nat \<times> nat \<Rightarrow> datetime" where
  "combine d tm = d * us_per_day + int (fst tm) * us_per_hour + int (snd tm) * us_per_minute"

text \<open>\<^verbatim>\<open>t.weekday()\<close>: 0 is Monday, 6 is Sunday.\<close>

definition weekday :: "datetime \<Rightarrow> nat" where
  "weekday t = nat (date t mod 7)"

text \<open>\<^verbatim>\<open>t.strftime('%A')\<close> in the C locale.\<close>

definition strftime_A :: "datetime \<Rightarrow> string" where
  "strftime_A t =
     [''Monday'', ''Tuesday'', ''Wednesday'', ''Thursday'', ''Friday'', ''Saturday'', ''Sunday'']
       ! weekday t"

text \<open>\<^verbatim>\<open>str.lower\<close> on ASCII text.\<close>

definition lower_char :: "char \<Rightarrow> char" where
  "lower_char c =
     (case map_of (zip ''ABCDEFGHIJKLMNOPQRSTUVWXYZ'' ''abcdefghijklmnopqrstuvwxyz'') c of
        None \<Rightarrow> c
      | Some l \<Rightarrow> l)"

definition lower :: "string \<Rightarrow> string" where
  "lower s = map lower_char s"

text \<open>
  The day count of a calendar date, as \<^verbatim>\<open>date(y, m, d).toordinal() - 1\<close> computes it
  for a valid date, and the instant of a valid date and time of day. They are used to
  write concrete instants legibly.
\<close>

definition is_leap :: "int \<Rightarrow> bool" where
  "is_leap y = (y mod 4 = 0 \<and> (y mod 100 \<noteq> 0 \<or> y mod 400 = 0))"

definition days_before_year :: "int \<Rightarrow> int" where
  "days_before_year y = (y - 1) * 365 + (y - 1) div 4 - (y - 1) div 100 + (y - 1) div 400"

definition days_before_month :: "int \<Rightarrow> nat \<Rightarrow> int" where
  "days_before_month y m =
     [0, 31, 59, 90, 120, 151, 181, 212, 243, 273, 304, 334] ! (m - 1)
       + (if 2 < m \<and> is_leap y then 1 else 0)"

definition ymd :: "int \<Rightarrow> nat \<Rightarrow> nat \<Rightarrow> int" where
  "ymd y m d = days_before_year y + days_before_month y m + int d - 1"

definition at_time :: "int \<Rightarrow> nat \<Rightarrow> nat \<Rightarrow> datetime" where
  "at_time d h m = combine d (h, m)"

section \<open>Parsing a time of day\<close>

text \<open>
  \<^verbatim>\<open>datetime.strptime(s, "%H:%M").time()\<close>. The format compiles to the regular expression
  \<^verbatim>\<open>(?P<H>2[0-3]|[0-1]\d|\d):(?P<M>[0-5]\d|\d)\<close>, matched at the start of the string with
  the alternatives tried in order; the call raises \<^verbatim>\<open>ValueError\<close> when there is no match
  or when the first match leaves text unconverted. Strings are ASCII here.
\<close>

definition digit_value :: "char \<Rightarrow> nat option" where
  "digit_value c =
     map_of [(CHR ''0'', 0), (CHR ''1'', 1), (CHR ''2'', 2), (CHR ''3'', 3), (CHR ''4'', 4),
             (CHR ''5'', 5), (CHR ''6'', 6), (CHR ''7'', 7), (CHR ''8'', 8), (CHR ''9'', 9)] c"

text \<open>The matches of \<^verbatim>\<open>2[0-3]|[0-1]\d|\d\<close> at the start of a string, in the order tried,
  each with the rest of the string.\<close>

fun match_H :: "string \<Rightarrow> (nat \<times> string) list" where
  "match_H [] = []"
| "match_H [a] = (case digit_value a of None \<Rightarrow> [] | Some x \<Rightarrow> [(x, [])])"
| "match_H (a # b # rest) =
     (case digit_value a of
        None \<Rightarrow> []
      | Some x \<Rightarrow>
          (case digit_value b of
             None \<Rightarrow> [(x, b # rest)]
           | Some y \<Rightarrow>
               (if x = 2 \<and> y \<le> 3 then [(20 + y, rest)] else [])
               @ (if x \<le> 1 then [(10 * x + y, rest)] else [])
               @ [(x, b # rest)]))"

text \<open>The matches of \<^verbatim>\<open>[0-5]\d|\d\<close>.\<close>

fun match_M :: "string \<Rightarrow> (nat \<times> string) list" where
  "match_M [] = []"
| "match_M [a] = (case digit_value a of None \<Rightarrow> [] | Some x \<Rightarrow> [(x, [])])"
| "match_M (a # b # rest) =
     (case digit_value a of
        None \<Rightarrow> []
      | Some x \<Rightarrow>
          (case digit_value b of
             None \<Rightarrow> [(x, b # rest)]
           | Some y \<Rightarrow>
               (if x \<le> 5 then [(10 * x + y, rest)] else [])
               @ [(x, b # rest)]))"

definition match_colon :: "string \<Rightarrow> string list" where
  "match_colon s = (case s of [] \<Rightarrow> [] | c # rest \<Rightarrow> if c = CHR '':'' then [rest] else [])"

definition strptime_HM :: "string \<Rightarrow> error + nat \<times> nat" where
  "strptime_HM s =
     (case concat (map (\<lambda>(h, r). concat (map (\<lambda>r'. map (\<lambda>(m, r''). (h, m, r'')) (match_M r'))
                                            (match_colon r)))
                       (match_H s)) of
        [] \<Rightarrow> Inl ValueError
      | (h, m, r) # _ \<Rightarrow> if r = [] then Inr (h, m) else Inl ValueError)"

section \<open>Data model\<close>

datatype DayOfWeek = MONDAY | TUESDAY | WEDNESDAY | THURSDAY | FRIDAY | SATURDAY | SUNDAY

fun value_of :: "DayOfWeek \<Rightarrow> string" where
  "value_of MONDAY = ''monday''"
| "value_of TUESDAY = ''tuesday''"
| "value_of WEDNESDAY = ''wednesday''"
| "value_of THURSDAY = ''thursday''"
| "value_of FRIDAY = ''friday''"
| "value_of SATURDAY = ''saturday''"
| "value_of SUNDAY = ''sunday''"

record PreferredHours =
  ph_start_time :: string
  ph_end_time :: string
  days :: "DayOfWeek list"

record UserPreferences =
  up_id :: string
  up_user_id :: string
  home_address :: string
  preferred_stores :: "string list"
  shopping_duration_minutes :: int
  preferred_hours :: "PreferredHours list"
  up_created_at :: datetime
  up_updated_at :: datetime

record CalendarEvent =
  ev_id :: string
  title :: string
  ev_start_time :: datetime
  ev_end_time :: datetime
  location :: "string option"

record GroceryStore =
  st_id :: string
  name :: string
  address :: string
  lat :: real
  lng :: real
  distance_km :: "real option"

record ScheduleSuggestion =
  sg_id :: string
  suggested_time :: datetime
  duration_minutes :: int
  store :: GroceryStore
  reason :: string
  travel_time_minutes :: int
  confidence_score :: real

record WeeklySchedule =
  ws_id :: string
  ws_user_id :: string
  ws_week_start :: datetime
  ws_suggestions :: "ScheduleSuggestion list"
  approved_suggestion_id :: "string option"
  status :: string
  ws_created_at :: datetime

section \<open>Mock data\<close>

text \<open>
  The calendar fixture is built when the module is loaded, from six successive readings
  of the clock: \<open>now i\<close> is the value of the \<open>i\<close>-th call of \<^verbatim>\<open>datetime.now()\<close>. The
  readings are taken far from the ends of the datetime range.
\<close>

definition MOCK_CALENDAR_EVENTS :: "(nat \<Rightarrow> datetime) \<Rightarrow> CalendarEvent list" where
  "MOCK_CALENDAR_EVENTS now =
     [\<lparr>ev_id = ''1'', title = ''Work Meeting'',
       ev_start_time = now 0 + timedelta 1 9 0, ev_end_time = now 1 + timedelta 1 10 0,
       location = Some ''123 Business St, Downtown''\<rparr>,
      \<lparr>ev_id = ''2'', title = ''Gym Session'',
       ev_start_time = now 2 + timedelta 2 18 0, ev_end_time = now 3 + timedelta 2 19 0,
       location = Some ''456 Fitness Ave, Midtown''\<rparr>,
      \<lparr>ev_id = ''3'', title = ''Dinner with Friends'',
       ev_start_time = now 4 + timedelta 3 19 0, ev_end_time = now 5 + timedelta 3 21 0,
       location = Some ''789 Restaurant Row, Uptown''\<rparr>]"

definition MOCK_GROCERY_STORES :: "GroceryStore list" where
  "MOCK_GROCERY_STORES =
     [\<lparr>st_id = ''1'', name = ''Whole Foods Market'', address = ''100 Organic St'',
       lat = 40.7128, lng = - 74.0060, distance_km = None\<rparr>,
      \<lparr>st_id = ''2'', name = ''Trader Joe's'', address = ''200 Affordable Ave'',
       lat = 40.7589, lng = - 73.9851, distance_km = None\<rparr>,
      \<lparr>st_id = ''3'', name = ''Safeway'', address = ''300 Convenient Blvd'',
       lat = 40.7505, lng = - 73.9934, distance_km = None\<rparr>,
      \<lparr>st_id = ''4'', name = ''Target Grocery'', address = ''400 Everything Dr'',
       lat = 40.7282, lng = - 73.7949, distance_km = None\<rparr>]"

section \<open>The scheduling service\<close>

definition calculate_travel_time :: "string \<Rightarrow> GroceryStore \<Rightarrow> int" where
  "calculate_travel_time from_location to_store = 15"

definition find_nearby_stores :: "string \<Rightarrow> GroceryStore list" where
  "find_nearby_stores loc = take 2 MOCK_GROCERY_STORES"

text \<open>The first argument is the module's calendar fixture.\<close>

definition get_calendar_events ::
  "CalendarEvent list \<Rightarrow> string \<Rightarrow> datetime \<Rightarrow> datetime \<Rightarrow> CalendarEvent list" where
  "get_calendar_events calendar user_id start_date end_date =
     filter (\<lambda>event. start_date \<le> ev_start_time event \<and> ev_start_time event \<le> end_date) calendar"

text \<open>The test of the comprehension that collects the conflicts of a slot.\<close>

definition conflict :: "datetime \<Rightarrow> datetime \<Rightarrow> CalendarEvent \<Rightarrow> bool" where
  "conflict slot_start slot_end_time e =
     ((slot_start \<le> ev_start_time e \<and> ev_start_time e \<le> slot_end_time) \<or>
      (slot_start \<le> ev_end_time e \<and> ev_end_time e \<le> slot_end_time) \<or>
      (ev_start_time e \<le> slot_start \<and> ev_end_time e \<ge> slot_end_time))"

text \<open>
  Every suggestion draws a fresh identifier: \<open>uuid4 n\<close> is the value of the \<open>n\<close>-th call of
  \<^verbatim>\<open>uuid.uuid4()\<close> during one generation, which is the call that builds the suggestion
  appended when the list already holds \<open>n\<close> of them.
\<close>

text \<open>\<^verbatim>\<open>for store in stores\<close>\<close>

fun for_stores ::
  "(nat \<Rightarrow> string) \<Rightarrow> UserPreferences \<Rightarrow> datetime \<Rightarrow> string \<Rightarrow> datetime \<Rightarrow>
   GroceryStore list \<Rightarrow> ScheduleSuggestion list \<Rightarrow> ScheduleSuggestion list" where
  "for_stores uuid4 preferences current_date day_name slot_start [] suggestions = suggestions"
| "for_stores uuid4 preferences current_date day_name slot_start (st # stores) suggestions =
     (let travel_time = calculate_travel_time (home_address preferences) st;
          confidence = (if day_name \<in> set [''saturday'', ''sunday''] then 0.8 else 0.6);
          suggestion =
            \<lparr>sg_id = uuid4 (length suggestions),
             suggested_time = slot_start,
             duration_minutes = shopping_duration_minutes preferences,
             store = st,
             reason = ''Free time on '' @ strftime_A current_date @ '' during your preferred hours'',
             travel_time_minutes = travel_time,
             confidence_score = confidence\<rparr>
      in for_stores uuid4 preferences current_date day_name slot_start stores (suggestions @ [suggestion]))"

text \<open>The \<^verbatim>\<open>while\<close> loop over the slots of one window.\<close>

partial_function (option) while_slots ::
  "(nat \<Rightarrow> string) \<Rightarrow> UserPreferences \<Rightarrow> CalendarEvent list \<Rightarrow> datetime \<Rightarrow> string \<Rightarrow>
   datetime \<Rightarrow> datetime \<Rightarrow> ScheduleSuggestion list \<Rightarrow> (error + ScheduleSuggestion list) option" where
  "while_slots uuid4 preferences events current_date day_name slot_end current_time suggestions =
     (case datetime_add current_time (timedelta 0 0 (shopping_duration_minutes preferences)) of
        Inl e \<Rightarrow> Some (Inl e)
      | Inr t \<Rightarrow>
          if t \<le> slot_end then
            (let slot_start = current_time in
             case datetime_add current_time (timedelta 0 0 (shopping_duration_minutes preferences)) of
               Inl e \<Rightarrow> Some (Inl e)
             | Inr slot_end_time \<Rightarrow>
                 (let conflicts = filter (conflict slot_start slot_end_time) events;
                      suggestions' =
                        (if conflicts = [] then
                           (let stores = find_nearby_stores (home_address preferences)
                            in for_stores uuid4 preferences current_date day_name slot_start stores suggestions)
                         else suggestions)
                  in case datetime_add current_time (timedelta 0 1 0) of
                       Inl e \<Rightarrow> Some (Inl e)
                     | Inr current_time' \<Rightarrow>
                         while_slots uuid4 preferences events current_date day_name slot_end
                           current_time' suggestions'))
          else Some (Inr suggestions))"

declare while_slots.simps [code]

text \<open>\<^verbatim>\<open>for pref_hours in preferred_for_day\<close>\<close>

fun for_pref_hours ::
  "(nat \<Rightarrow> string) \<Rightarrow> UserPreferences \<Rightarrow> CalendarEvent list \<Rightarrow> datetime \<Rightarrow> string \<Rightarrow>
   PreferredHours list \<Rightarrow> ScheduleSuggestion list \<Rightarrow> ScheduleSuggestion list result" where
  "for_pref_hours uuid4 preferences events current_date day_name [] suggestions = Some (Inr suggestions)"
| "for_pref_hours uuid4 preferences events current_date day_name (pref_hours # rest) suggestions =
     (case strptime_HM (ph_start_time pref_hours) of
        Inl e \<Rightarrow> Some (Inl e)
      | Inr start_time \<Rightarrow>
          (case strptime_HM (ph_end_time pref_hours) of
             Inl e \<Rightarrow> Some (Inl e)
           | Inr end_time \<Rightarrow>
               (let current_time = combine (date current_date) start_time;
                    slot_end = combine (date current_date) end_time
                in case while_slots uuid4 preferences events current_date day_name slot_end
                          current_time suggestions of
                     None \<Rightarrow> None
                   | Some (Inl e) \<Rightarrow> Some (Inl e)
                   | Some (Inr suggestions') \<Rightarrow>
                       for_pref_hours uuid4 preferences events current_date day_name rest suggestions')))"

text \<open>\<^verbatim>\<open>for day_offset in range(7)\<close>\<close>

fun for_day_offsets ::
  "(nat \<Rightarrow> string) \<Rightarrow> UserPreferences \<Rightarrow> CalendarEvent list \<Rightarrow> datetime \<Rightarrow>
   nat list \<Rightarrow> ScheduleSuggestion list \<Rightarrow> ScheduleSuggestion list result" where
  "for_day_offsets uuid4 preferences events week_start [] suggestions = Some (Inr suggestions)"
| "for_day_offsets uuid4 preferences events week_start (day_offset # rest) suggestions =
     (case datetime_add week_start (timedelta (int day_offset) 0 0) of
        Inl e \<Rightarrow> Some (Inl e)
      | Inr current_date \<Rightarrow>
          (let day_name = lower (strftime_A current_date);
               preferred_for_day =
                 filter (\<lambda>ph. day_name \<in> set (map value_of (days ph))) (preferred_hours preferences)
           in if preferred_for_day = [] then
                for_day_offsets uuid4 preferences events week_start rest suggestions
              else
                (case for_pref_hours uuid4 preferences events current_date day_name
                        preferred_for_day suggestions of
                   None \<Rightarrow> None
                 | Some (Inl e) \<Rightarrow> Some (Inl e)
                 | Some (Inr suggestions') \<Rightarrow>
                     for_day_offsets uuid4 preferences events week_start rest suggestions')))"

text \<open>
  \<^verbatim>\<open>sorted(xs, key=key, reverse=True)\<close>: the list is reversed, sorted stably by ascending
  key, and reversed again.
\<close>

definition sorted_reverse :: "('a \<Rightarrow> real) \<Rightarrow> 'a list \<Rightarrow> 'a list" where
  "sorted_reverse key xs = rev (sort_key key (rev xs))"

text \<open>The suggestions collected by the loops, before they are ranked.\<close>

definition collect_suggestions ::
  "(nat \<Rightarrow> string) \<Rightarrow> CalendarEvent list \<Rightarrow> UserPreferences \<Rightarrow> datetime \<Rightarrow>
   ScheduleSuggestion list result" where
  "collect_suggestions uuid4 calendar preferences week_start =
     (case datetime_add week_start (timedelta 7 0 0) of
        Inl e \<Rightarrow> Some (Inl e)
      | Inr week_end \<Rightarrow>
          (let events = get_calendar_events calendar (up_user_id preferences) week_start week_end
           in for_day_offsets uuid4 preferences events week_start [0..<7] []))"

definition generate_schedule_suggestions ::
  "(nat \<Rightarrow> string) \<Rightarrow> CalendarEvent list \<Rightarrow> UserPreferences \<Rightarrow> datetime \<Rightarrow>
   ScheduleSuggestion list result" where
  "generate_schedule_suggestions uuid4 calendar preferences week_start =
     (case collect_suggestions uuid4 calendar preferences week_start of
        None \<Rightarrow> None
      | Some (Inl e) \<Rightarrow> Some (Inl e)
      | Some (Inr suggestions) \<Rightarrow> Some (Inr (take 5 (sorted_reverse confidence_score suggestions))))"

section \<open>The suggestions in the order of their discovery\<close>

text \<open>
  A description of what the loops collect, written as list comprehensions: for each day
  offset, for each window that names the day (in the order the preferences list them),
  for each hourly slot start that fits the window and is free of conflicts (ascending),
  for each nearby store (in the order of the lookup), one suggestion. The theorems below
  prove that the loops compute this list.
\<close>

text \<open>How many slot starts \<open>start\<close>, \<open>start + 1h\<close>, ... have their slot of length \<open>d\<close> end at or
  before \<open>slot_end\<close>.\<close>

definition slot_count :: "datetime \<Rightarrow> int \<Rightarrow> datetime \<Rightarrow> nat" where
  "slot_count start d slot_end =
     (if start + d \<le> slot_end then nat ((slot_end - d - start) div us_per_hour) + 1 else 0)"

definition slot_starts :: "datetime \<Rightarrow> int \<Rightarrow> datetime \<Rightarrow> datetime list" where
  "slot_starts start d slot_end =
     map (\<lambda>k. start + int k * us_per_hour) [0..<slot_count start d slot_end]"

definition free_slot :: "CalendarEvent list \<Rightarrow> int \<Rightarrow> datetime \<Rightarrow> bool" where
  "free_slot events d c = (\<forall>e \<in> set events. \<not> conflict c (c + d) e)"

definition day_of_week :: "datetime \<Rightarrow> DayOfWeek" where
  "day_of_week t = [MONDAY, TUESDAY, WEDNESDAY, THURSDAY, FRIDAY, SATURDAY, SUNDAY] ! weekday t"

text \<open>The suggestion for a slot and a store on a day, its identifier left empty.\<close>

definition new_suggestion ::
  "UserPreferences \<Rightarrow> datetime \<Rightarrow> datetime \<Rightarrow> GroceryStore \<Rightarrow> ScheduleSuggestion" where
  "new_suggestion preferences current_date slot_start st =
     \<lparr>sg_id = [],
      suggested_time = slot_start,
      duration_minutes = shopping_duration_minutes preferences,
      store = st,
      reason = ''Free time on '' @ strftime_A current_date @ '' during your preferred hours'',
      travel_time_minutes = 15,
      confidence_score = (if day_of_week current_date \<in> {SATURDAY, SUNDAY} then 0.8 else 0.6)\<rparr>"

definition slot_suggestions ::
  "UserPreferences \<Rightarrow> CalendarEvent list \<Rightarrow> datetime \<Rightarrow> datetime \<Rightarrow> datetime \<Rightarrow>
   ScheduleSuggestion list" where
  "slot_suggestions preferences events current_date start slot_end =
     concat (map (\<lambda>c. map (new_suggestion preferences current_date c)
                            (find_nearby_stores (home_address preferences)))
                 (filter (free_slot events (timedelta 0 0 (shopping_duration_minutes preferences)))
                         (slot_starts start (timedelta 0 0 (shopping_duration_minutes preferences))
                            slot_end)))"

definition window_suggestions ::
  "UserPreferences \<Rightarrow> CalendarEvent list \<Rightarrow> datetime \<Rightarrow> PreferredHours \<Rightarrow>
   ScheduleSuggestion list" where
  "window_suggestions preferences events current_date ph =
     (case strptime_HM (ph_start_time ph) of
        Inl e \<Rightarrow> []
      | Inr start_time \<Rightarrow>
          (case strptime_HM (ph_end_time ph) of
             Inl e \<Rightarrow> []
           | Inr end_time \<Rightarrow>
               slot_suggestions preferences events current_date
                 (combine (date current_date) start_time) (combine (date current_date) end_time)))"

definition day_windows :: "UserPreferences \<Rightarrow> datetime \<Rightarrow> PreferredHours list" where
  "day_windows preferences current_date =
     filter (\<lambda>ph. day_of_week current_date \<in> set (days ph)) (preferred_hours preferences)"

definition day_suggestions ::
  "UserPreferences \<Rightarrow> CalendarEvent list \<Rightarrow> datetime \<Rightarrow> nat \<Rightarrow> ScheduleSuggestion list" where
  "day_suggestions preferences events week_start day_offset =
     concat (map (window_suggestions preferences events (week_start + timedelta (int day_offset) 0 0))
                 (day_windows preferences (week_start + timedelta (int day_offset) 0 0)))"

definition discovery ::
  "CalendarEvent list \<Rightarrow> UserPreferences \<Rightarrow> datetime \<Rightarrow> ScheduleSuggestion list" where
  "discovery calendar preferences week_start =
     concat (map (day_suggestions preferences
                    (get_calendar_events calendar (up_user_id preferences) week_start
                       (week_start + timedelta 7 0 0))
                    week_start)
                 [0..<7])"

text \<open>The identifiers \<open>uuid4 n\<close>, \<open>uuid4 (n + 1)\<close>, ... given to a list of suggestions.\<close>

fun number_ids :: "(nat \<Rightarrow> string) \<Rightarrow> nat \<Rightarrow> ScheduleSuggestion list \<Rightarrow> ScheduleSuggestion list" where
  "number_ids uuid4 n [] = []"
| "number_ids uuid4 n (s # ss) = s\<lparr>sg_id := uuid4 n\<rparr> # number_ids uuid4 (Suc n) ss"

text \<open>
  The reading of the calendar lookup as an overlap with the half-open interval
  \<open>[start, end)\<close>, to compare with \<open>get_calendar_events\<close>.
\<close>

definition overlaps_half_open :: "datetime \<Rightarrow> datetime \<Rightarrow> CalendarEvent \<Rightarrow> bool" where
  "overlaps_half_open start_date end_date event =
     (ev_start_time event < end_date \<and> start_date < ev_end_time event)"

section \<open>Documents\<close>

text \<open>
  The values a document holds. A dictionary keeps its keys in insertion order; it is a
  list of pairs of a key and a value.
\<close>

datatype pyval =
    PNone
  | PBool bool
  | PInt int
  | PFloat real
  | PStr string
  | PDatetime datetime
  | PList "pyval list"
  | PDict "(string \<times> pyval) list"

type_synonym pydict = "(string \<times> pyval) list"

text \<open>\<^verbatim>\<open>model.dict()\<close>\<close>

definition dict_GroceryStore :: "GroceryStore \<Rightarrow> pydict" where
  "dict_GroceryStore st =
     [(''id'', PStr (st_id st)), (''name'', PStr (name st)), (''address'', PStr (address st)),
      (''lat'', PFloat (lat st)), (''lng'', PFloat (lng st)),
      (''distance_km'', case distance_km st of None \<Rightarrow> PNone | Some x \<Rightarrow> PFloat x)]"

definition dict_ScheduleSuggestion :: "ScheduleSuggestion \<Rightarrow> pydict" where
  "dict_ScheduleSuggestion g =
     [(''id'', PStr (sg_id g)), (''suggested_time'', PDatetime (suggested_time g)),
      (''duration_minutes'', PInt (duration_minutes g)),
      (''store'', PDict (dict_GroceryStore (store g))),
      (''reason'', PStr (reason g)),
      (''travel_time_minutes'', PInt (travel_time_minutes g)),
      (''confidence_score'', PFloat (confidence_score g))]"

definition dict_WeeklySchedule :: "WeeklySchedule \<Rightarrow> pydict" where
  "dict_WeeklySchedule w =
     [(''id'', PStr (ws_id w)), (''user_id'', PStr (ws_user_id w)),
      (''week_start'', PDatetime (ws_week_start w)),
      (''suggestions'', PList (map (\<lambda>g. PDict (dict_ScheduleSuggestion g)) (ws_suggestions w))),
      (''approved_suggestion_id'',
         case approved_suggestion_id w of None \<Rightarrow> PNone | Some x \<Rightarrow> PStr x),
      (''status'', PStr (status w)),
      (''created_at'', PDatetime (ws_created_at w))]"

text \<open>
  \<^verbatim>\<open>prepare_for_mongo\<close> and \<^verbatim>\<open>parse_from_mongo\<close> update the dictionary in place, entry by
  entry, and return it. The formatter \<^verbatim>\<open>datetime.isoformat\<close> and the parser
  \<^verbatim>\<open>datetime.fromisoformat\<close> (\<open>None\<close> when it raises) are parameters.
\<close>

fun prepare_for_mongo :: "(datetime \<Rightarrow> string) \<Rightarrow> pydict \<Rightarrow> pydict" where
  "prepare_for_mongo isoformat data =
     map (\<lambda>(key, v).
            (key,
             case v of
               PDatetime t \<Rightarrow> PStr (isoformat t)
             | PList items \<Rightarrow>
                 PList (map (\<lambda>item. case item of
                                       PDict d \<Rightarrow> PDict (prepare_for_mongo isoformat d)
                                     | _ \<Rightarrow> item)
                            items)
             | _ \<Rightarrow> v))
         data"

text \<open>\<^verbatim>\<open>s.endswith(suffixes)\<close>\<close>

definition endswith :: "string \<Rightarrow> string list \<Rightarrow> bool" where
  "endswith s suffixes =
     (\<exists>suffix \<in> set suffixes. length suffix \<le> length s \<and> drop (length s - length suffix) s = suffix)"

fun parse_from_mongo :: "(string \<Rightarrow> datetime option) \<Rightarrow> pydict \<Rightarrow> pydict" where
  "parse_from_mongo fromisoformat data =
     map (\<lambda>(key, v).
            (key,
             case v of
               PStr s \<Rightarrow>
                 (if endswith key [''_at'', ''_time''] then
                    (case fromisoformat s of None \<Rightarrow> PStr s | Some t \<Rightarrow> PDatetime t)
                  else PStr s)
             | PList items \<Rightarrow>
                 PList (map (\<lambda>item. case item of
                                       PDict d \<Rightarrow> PDict (parse_from_mongo fromisoformat d)
                                     | _ \<Rightarrow> item)
                            items)
             | _ \<Rightarrow> v))
         data"

text \<open>The dictionaries among the elements of the list stored under \<^verbatim>\<open>suggestions\<close>.\<close>

definition suggestion_dicts :: "pydict \<Rightarrow> pydict list" where
  "suggestion_dicts data =
     (case map_of data ''suggestions'' of
        Some (PList items) \<Rightarrow> concat (map (\<lambda>item. case item of PDict d \<Rightarrow> [d] | _ \<Rightarrow> []) items)
      | _ \<Rightarrow> [])"

section \<open>Approving a suggestion\<close>

text \<open>
  A collection is the list of its documents. \<^verbatim>\<open>update_one(filter, {"$set": fields})\<close>
  updates the first document whose fields equal those of the filter. Its result counts
  the documents that matched (\<^verbatim>\<open>matched_count\<close>) and those the update changed
  (\<^verbatim>\<open>modified_count\<close>): a document that already holds the values to set is matched
  and not modified.
\<close>

record UpdateResult =
  matched_count :: nat
  modified_count :: nat

definition matches :: "pydict \<Rightarrow> pydict \<Rightarrow> bool" where
  "matches flt doc = list_all (\<lambda>(k, v). map_of doc k = Some v) flt"

definition set_field :: "string \<Rightarrow> pyval \<Rightarrow> pydict \<Rightarrow> pydict" where
  "set_field k v doc =
     (if k \<in> set (map fst doc) then map (\<lambda>(k', v'). if k' = k then (k', v) else (k', v')) doc
      else doc @ [(k, v)])"

definition set_fields :: "pydict \<Rightarrow> pydict \<Rightarrow> pydict" where
  "set_fields updates doc = fold (\<lambda>(k, v). set_field k v) updates doc"

fun update_one :: "pydict list \<Rightarrow> pydict \<Rightarrow> pydict \<Rightarrow> pydict list \<times> UpdateResult" where
  "update_one [] flt updates = ([], \<lparr>matched_count = 0, modified_count = 0\<rparr>)"
| "update_one (doc # docs) flt updates =
     (if matches flt doc then
        (set_fields updates doc # docs,
         \<lparr>matched_count = 1, modified_count = (if set_fields updates doc = doc then 0 else 1)\<rparr>)
      else (case update_one docs flt updates of (docs', res) \<Rightarrow> (doc # docs', res)))"

datatype http_error = HTTPException nat string

text \<open>The route takes the collection \<^verbatim>\<open>db.weekly_schedules\<close> and returns it updated.\<close>

definition approve_suggestion ::
  "pydict list \<Rightarrow> string \<Rightarrow> string \<Rightarrow> (http_error + (string \<times> string) list) \<times> pydict list" where
  "approve_suggestion weekly_schedules schedule_id suggestion_id =
     (case update_one weekly_schedules [(''id'', PStr schedule_id)]
             [(''approved_suggestion_id'', PStr suggestion_id), (''status'', PStr ''approved'')] of
        (weekly_schedules', res) \<Rightarrow>
          if modified_count res = 0 then
            (Inl (HTTPException 404 ''Schedule not found''), weekly_schedules')
          else (Inr [(''message'', ''Suggestion approved successfully'')], weekly_schedules'))"

section \<open>Concrete inputs\<close>

text \<open>
  The week of Monday 2 November 2026 (its Saturday is 7 November), a stream of
  identifiers, preferences with a given duration and given windows, the window
  09:00-11:00 on Saturdays, and an event on that Saturday from 09:30 to a given time.
\<close>

definition example_week :: datetime where
  "example_week = at_time (ymd 2026 11 2) 0 0"

definition example_uuid4 :: "nat \<Rightarrow> string" where
  "example_uuid4 n = ''uuid-'' @ replicate n CHR ''i''"

definition example_preferences :: "int \<Rightarrow> PreferredHours list \<Rightarrow> UserPreferences" where
  "example_preferences d windows =
     \<lparr>up_id = ''prefs-1'', up_user_id = ''user-1'', home_address = ''1 Home St'',
      preferred_stores = [], shopping_duration_minutes = d, preferred_hours = windows,
      up_created_at = example_week, up_updated_at = example_week\<rparr>"

definition saturday_morning :: PreferredHours where
  "saturday_morning = \<lparr>ph_start_time = ''09:00'', ph_end_time = ''11:00'', days = [SATURDAY]\<rparr>"

definition saturday_window :: "string \<Rightarrow> string \<Rightarrow> PreferredHours" where
  "saturday_window start_time end_time =
     \<lparr>ph_start_time = start_time, ph_end_time = end_time, days = [SATURDAY]\<rparr>"

definition saturday_event :: "nat \<Rightarrow> nat \<Rightarrow> CalendarEvent" where
  "saturday_event h m =
     \<lparr>ev_id = ''e1'', title = ''Appointment'',
      ev_start_time = at_time (ymd 2026 11 7) 9 30, ev_end_time = at_time (ymd 2026 11 7) h m,
      location = None\<rparr>"

text \<open>
  Weeks are counted from the one that begins on Monday 0001-01-01: \<open>monday n\<close> is 00:00
  on the Monday of week \<open>n\<close>, and \<open>saturday n h m\<close> is the time \<open>h:m\<close> on its Saturday. The week
  of 2 November 2026 is week 105703.
\<close>

definition monday :: "nat \<Rightarrow> datetime" where
  "monday n = combine (int n * 7) (0, 0)"

definition saturday :: "nat \<Rightarrow> nat \<Rightarrow> nat \<Rightarrow> datetime" where
  "saturday n h m = combine (int n * 7 + 5) (h, m)"

text \<open>
  Six readings of the clock on Wednesday 4 November 2026, from 10:00:00, one microsecond
  apart, and a stored schedule document before and after the approval of a suggestion.
\<close>

definition example_now :: "nat \<Rightarrow> datetime" where
  "example_now i = at_time (ymd 2026 11 4) 10 0 + int i"

definition example_schedule_doc :: "pyval \<Rightarrow> string \<Rightarrow> pydict" where
  "example_schedule_doc approved st =
     [(''id'', PStr ''schedule-1''), (''user_id'', PStr ''user-1''),
      (''week_start'', PStr ''2026-11-02T00:00:00''), (''suggestions'', PList []),
      (''approved_suggestion_id'', approved), (''status'', PStr st),
      (''created_at'', PStr ''2026-11-04T10:00:00'')]"

section \<open>The loops compute the discovery order\<close>

lemma number_ids_append:
  "number_ids u n (xs @ ys) = number_ids u n xs @ number_ids u (n + length xs) ys"
  by (induction xs arbitrary: n) auto

lemma length_number_ids [simp]: "length (number_ids u n xs) = length xs"
  by (induction xs arbitrary: n) auto

lemma weekday_less: "weekday t < 7"
  by (simp add: weekday_def nat_less_iff)

lemma weekday_cases:
  "weekday t = 0 \<or> weekday t = 1 \<or> weekday t = 2 \<or> weekday t = 3 \<or> weekday t = 4 \<or> weekday t = 5 \<or> weekday t = 6"
  using weekday_less [of t] by arith

lemma lower_strftime_A: "lower (strftime_A t) = value_of (day_of_week t)"
  using weekday_cases [of t]
  by (auto simp: strftime_A_def day_of_week_def lower_def lower_char_def)

lemma value_of_inject: "value_of a = value_of b \<longleftrightarrow> a = b"
  by (cases a; cases b) simp_all

lemma day_name_member:
  "lower (strftime_A t) \<in> set (map value_of ds) \<longleftrightarrow> day_of_week t \<in> set ds"
  by (auto simp: lower_strftime_A value_of_inject)

lemma day_name_weekend:
  "lower (strftime_A t) \<in> set [''saturday'', ''sunday''] \<longleftrightarrow> day_of_week t \<in> {SATURDAY, SUNDAY}"
  unfolding lower_strftime_A by (cases "day_of_week t") simp_all

lemma for_stores_eq:
  "for_stores u p cd (lower (strftime_A cd)) c stores acc =
     acc @ number_ids u (length acc) (map (new_suggestion p cd c) stores)"
proof (induction stores arbitrary: acc)
  case Nil
  show ?case by simp
next
  case (Cons st stores)
  have one: "\<lparr>sg_id = u (length acc), suggested_time = c,
             duration_minutes = shopping_duration_minutes p, store = st,
             reason = ''Free time on '' @ strftime_A cd @ '' during your preferred hours'',
             travel_time_minutes = calculate_travel_time (home_address p) st,
             confidence_score = (if lower (strftime_A cd) \<in> set [''saturday'', ''sunday''] then 0.8 else 0.6)\<rparr>
           = (new_suggestion p cd c st)\<lparr>sg_id := u (length acc)\<rparr>"
    unfolding day_name_weekend by (simp add: new_suggestion_def calculate_travel_time_def)
  show ?case
    unfolding for_stores.simps Let_def Cons.IH one by simp
qed

lemma slot_starts_Nil: "\<not> cur + d \<le> se \<Longrightarrow> slot_starts cur d se = []"
  by (simp add: slot_starts_def slot_count_def)

lemma slot_count_Suc:
  assumes "cur + d \<le> se"
  shows "slot_count cur d se = Suc (slot_count (cur + us_per_hour) d se)"
proof -
  define x where "x = se - d - cur"
  have x0: "0 \<le> x" using assms by (simp add: x_def)
  have H: "us_per_hour = 3600000000" by (simp add: us_per_hour_def)
  show ?thesis
  proof (cases "cur + us_per_hour + d \<le> se")
    case True
    then have xh: "3600000000 \<le> x" by (simp add: x_def H)
    have "x div 3600000000 = (x - 3600000000) div 3600000000 + 1" by simp
    moreover have "0 \<le> (x - 3600000000) div 3600000000" using xh by simp
    ultimately have "nat (x div 3600000000) = Suc (nat ((x - 3600000000) div 3600000000))"
      by simp
    moreover have "se - d - (cur + 3600000000) = x - 3600000000" by (simp add: x_def)
    ultimately show ?thesis using True assms
      by (simp add: slot_count_def H x_def)
  next
    case False
    then have "x < 3600000000" by (simp add: x_def H)
    then have "x div 3600000000 = 0" using x0 by simp
    then show ?thesis using False assms by (simp add: slot_count_def H x_def)
  qed
qed

lemma slot_starts_Cons:
  assumes "cur + d \<le> se"
  shows "slot_starts cur d se = cur # slot_starts (cur + us_per_hour) d se"
proof -
  have "map (\<lambda>k. cur + int k * us_per_hour) [0..<Suc n]
          = cur # map (\<lambda>k. cur + us_per_hour + int k * us_per_hour) [0..<n]" for n
    by (simp add: upt_conv_Cons map_Suc_upt [symmetric] algebra_simps del: upt_Suc)
  then show ?thesis
    unfolding slot_starts_def slot_count_Suc [OF assms] by blast
qed

lemma while_slots_induct:
  assumes step: "\<And>cur acc. (\<And>acc'. cur + d \<le> se \<Longrightarrow> P (cur + us_per_hour) acc') \<Longrightarrow> P cur acc"
  shows "P (cur :: int) acc"
proof (induction "nat (se - d - cur + 1)" arbitrary: cur acc rule: less_induct)
  case less
  show ?case
  proof (rule step)
    fix acc'
    assume "cur + d \<le> se"
    then have "nat (se - d - (cur + us_per_hour) + 1) < nat (se - d - cur + 1)"
      by (simp add: us_per_hour_def)
    then show "P (cur + us_per_hour) acc'" by (rule less)
  qed
qed

lemma timedelta_hour: "timedelta 0 1 0 = us_per_hour"
  by (simp add: timedelta_def)

lemma while_slots_returns:
  "\<exists>r. while_slots u p ev cd dn se cur acc = Some r"
proof (induction cur acc rule: while_slots_induct
    [where d = "timedelta 0 0 (shopping_duration_minutes p)" and se = se])
  case (1 cur acc)
  show ?case
    apply (subst while_slots.simps)
    using 1 by (auto simp: datetime_add_def Let_def timedelta_hour split: sum.splits)
qed

lemma slot_suggestions_Nil:
  "\<not> cur + timedelta 0 0 (shopping_duration_minutes p) \<le> se \<Longrightarrow> slot_suggestions p ev cd cur se = []"
  by (simp add: slot_suggestions_def slot_starts_Nil)

lemma slot_suggestions_Cons:
  "cur + timedelta 0 0 (shopping_duration_minutes p) \<le> se \<Longrightarrow>
   slot_suggestions p ev cd cur se =
     (if free_slot ev (timedelta 0 0 (shopping_duration_minutes p)) cur
      then map (new_suggestion p cd cur) (find_nearby_stores (home_address p)) else [])
     @ slot_suggestions p ev cd (cur + us_per_hour) se"
  by (simp add: slot_suggestions_def slot_starts_Cons)

lemma no_conflicts_iff: "filter (conflict c t) ev = [] \<longleftrightarrow> free_slot ev (t - c) c"
  by (auto simp: free_slot_def filter_empty_conv)

lemma while_slots_eq:
  "while_slots u p ev cd (lower (strftime_A cd)) se cur acc = Some (Inr r) \<Longrightarrow>
   r = acc @ number_ids u (length acc) (slot_suggestions p ev cd cur se)"
proof (induction cur acc arbitrary: r rule: while_slots_induct
    [where d = "timedelta 0 0 (shopping_duration_minutes p)" and se = se])
  case (1 cur acc)
  let ?d = "timedelta 0 0 (shopping_duration_minutes p)"
  note run = "1.prems" [unfolded while_slots.simps [of u p ev cd "lower (strftime_A cd)" se cur acc]]
  show ?case
  proof (cases "cur + ?d \<le> se")
    case False
    with run have "r = acc"
      by (auto simp: datetime_add_def split: if_splits)
    then show ?thesis using False by (simp add: slot_suggestions_Nil)
  next
    case True
    define acc' where "acc' = (if free_slot ev ?d cur
        then for_stores u p cd (lower (strftime_A cd)) cur (find_nearby_stores (home_address p)) acc
        else acc)"
    from run True have rec: "while_slots u p ev cd (lower (strftime_A cd)) se (cur + us_per_hour) acc' = Some (Inr r)"
      by (auto simp: datetime_add_def Let_def acc'_def no_conflicts_iff timedelta_hour split: if_splits)
    have acc': "acc' = acc @ number_ids u (length acc)
        (if free_slot ev ?d cur then map (new_suggestion p cd cur) (find_nearby_stores (home_address p)) else [])"
      by (simp add: acc'_def for_stores_eq)
    from "1.IH" [OF True rec] show ?thesis
      unfolding slot_suggestions_Cons [OF True] acc'
      by (simp add: number_ids_append)
  qed
qed

lemma for_pref_hours_returns:
  "\<exists>r. for_pref_hours u p ev cd dn phs acc = Some r"
proof (induction phs arbitrary: acc)
  case Nil
  show ?case by simp
next
  case (Cons ph phs)
  show ?case
  proof (cases "strptime_HM (ph_start_time ph)")
    case (Inl e)
    then show ?thesis by simp
  next
    case st: (Inr start_time)
    show ?thesis
    proof (cases "strptime_HM (ph_end_time ph)")
      case (Inl e)
      then show ?thesis using st by simp
    next
      case en: (Inr end_time)
      obtain w where w: "while_slots u p ev cd dn (combine (date cd) end_time)
          (combine (date cd) start_time) acc = Some w"
        using while_slots_returns by blast
      show ?thesis
      proof (cases w)
        case (Inl e)
        then show ?thesis using st en w by simp
      next
        case (Inr acc')
        then show ?thesis using st en w Cons.IH [of acc'] by simp
      qed
    qed
  qed
qed

lemma for_pref_hours_eq:
  "for_pref_hours u p ev cd (lower (strftime_A cd)) phs acc = Some (Inr r) \<Longrightarrow>
   r = acc @ number_ids u (length acc) (concat (map (window_suggestions p ev cd) phs))"
proof (induction phs arbitrary: acc)
  case Nil
  then show ?case by simp
next
  case (Cons ph phs)
  from Cons.prems obtain start_time end_time acc' where
    st: "strptime_HM (ph_start_time ph) = Inr start_time" and
    en: "strptime_HM (ph_end_time ph) = Inr end_time" and
    w: "while_slots u p ev cd (lower (strftime_A cd)) (combine (date cd) end_time)
          (combine (date cd) start_time) acc = Some (Inr acc')" and
    rest: "for_pref_hours u p ev cd (lower (strftime_A cd)) phs acc' = Some (Inr r)"
    by (auto simp: Let_def split: sum.splits option.splits)
  have acc': "acc' = acc @ number_ids u (length acc) (window_suggestions p ev cd ph)"
    using while_slots_eq [OF w] by (simp add: window_suggestions_def st en)
  show ?case
    using Cons.IH [OF rest] by (simp add: acc' number_ids_append)
qed

lemma for_day_offsets_returns:
  "\<exists>r. for_day_offsets u p ev ws ks acc = Some r"
proof (induction ks arbitrary: acc)
  case Nil
  show ?case by simp
next
  case (Cons k ks)
  show ?case
  proof (cases "datetime_add ws (timedelta (int k) 0 0)")
    case (Inl e)
    then show ?thesis by simp
  next
    case cd: (Inr cd)
    define phs where "phs = filter (\<lambda>ph. lower (strftime_A cd) \<in> set (map value_of (days ph))) (preferred_hours p)"
    obtain w where w: "for_pref_hours u p ev cd (lower (strftime_A cd)) phs acc = Some w"
      using for_pref_hours_returns by blast
    show ?thesis
    proof (cases w)
      case (Inl e)
      then show ?thesis using cd w Cons.IH [of acc] by (simp add: Let_def phs_def)
    next
      case (Inr acc')
      then show ?thesis using cd w Cons.IH [of acc] Cons.IH [of acc'] by (simp add: Let_def phs_def)
    qed
  qed
qed

lemma for_day_offsets_eq:
  "for_day_offsets u p ev ws ks acc = Some (Inr r) \<Longrightarrow>
   r = acc @ number_ids u (length acc) (concat (map (day_suggestions p ev ws) ks))"
proof (induction ks arbitrary: acc)
  case Nil
  then show ?case by simp
next
  case (Cons k ks)
  let ?cd = "ws + timedelta (int k) 0 0"
  from Cons.prems have cd: "datetime_add ws (timedelta (int k) 0 0) = Inr ?cd"
    by (auto simp: datetime_add_def split: if_splits)
  have phs: "filter (\<lambda>ph. lower (strftime_A ?cd) \<in> set (map value_of (days ph))) (preferred_hours p)
      = day_windows p ?cd"
    unfolding day_name_member day_windows_def ..
  show ?case
  proof (cases "day_windows p ?cd = []")
    case True
    with Cons.prems cd phs have "for_day_offsets u p ev ws ks acc = Some (Inr r)"
      by (simp add: Let_def)
    from Cons.IH [OF this] show ?thesis
      by (simp add: day_suggestions_def True)
  next
    case False
    with Cons.prems cd phs obtain acc' where
      w: "for_pref_hours u p ev ?cd (lower (strftime_A ?cd)) (day_windows p ?cd) acc = Some (Inr acc')" and
      rest: "for_day_offsets u p ev ws ks acc' = Some (Inr r)"
      by (auto simp: Let_def split: sum.splits option.splits)
    have acc': "acc' = acc @ number_ids u (length acc) (day_suggestions p ev ws k)"
      using for_pref_hours_eq [OF w] by (simp add: day_suggestions_def)
    show ?thesis
      using Cons.IH [OF rest] by (simp add: acc' number_ids_append)
  qed
qed

lemma collect_suggestions_returns:
  "\<exists>r. collect_suggestions u cal p ws = Some r"
  unfolding collect_suggestions_def Let_def
  using for_day_offsets_returns by (cases "datetime_add ws (timedelta 7 0 0)") auto

lemma collect_suggestions_eq:
  assumes "collect_suggestions u cal p ws = Some (Inr r)"
  shows "r = number_ids u 0 (discovery cal p ws)"
proof -
  from assms have we: "datetime_add ws (timedelta 7 0 0) = Inr (ws + timedelta 7 0 0)"
    by (auto simp: collect_suggestions_def datetime_add_def split: if_splits)
  with assms have "for_day_offsets u p
      (get_calendar_events cal (up_user_id p) ws (ws + timedelta 7 0 0)) ws [0..<7] [] = Some (Inr r)"
    by (simp add: collect_suggestions_def Let_def)
  from for_day_offsets_eq [OF this] show ?thesis
    by (simp add: discovery_def)
qed

lemma generate_cases:
  assumes "generate_schedule_suggestions u cal p ws = Some (Inr r)"
  shows "collect_suggestions u cal p ws = Some (Inr (number_ids u 0 (discovery cal p ws))) \<and>
         r = take 5 (sorted_reverse confidence_score (number_ids u 0 (discovery cal p ws)))"
proof -
  from assms obtain all where c: "collect_suggestions u cal p ws = Some (Inr all)"
    and r: "r = take 5 (sorted_reverse confidence_score all)"
    by (auto simp: generate_schedule_suggestions_def split: option.splits sum.splits)
  from collect_suggestions_eq [OF c] c r show ?thesis by simp
qed

lemma in_number_ids:
  "s \<in> set (number_ids u n xs) \<Longrightarrow> \<exists>t \<in> set xs. \<exists>i. s = t\<lparr>sg_id := u i\<rparr>"
  by (induction xs arbitrary: n) auto

lemma set_sorted_reverse: "set (sorted_reverse f xs) = set xs"
  by (simp add: sorted_reverse_def)

lemma slot_starts_iff:
  "c \<in> set (slot_starts s d e) \<longleftrightarrow> (\<exists>k::nat. c = s + int k * us_per_hour) \<and> c + d \<le> e"
proof
  assume "c \<in> set (slot_starts s d e)"
  then obtain k where k: "k < slot_count s d e" and c: "c = s + int k * us_per_hour"
    by (auto simp: slot_starts_def)
  from k have "s + d \<le> e" and "int k \<le> (e - d - s) div 3600000000"
    by (auto simp: slot_count_def us_per_hour_def split: if_splits)
  then have "int k * 3600000000 \<le> e - d - s" by arith
  with c show "(\<exists>k::nat. c = s + int k * us_per_hour) \<and> c + d \<le> e"
    by (auto simp: us_per_hour_def)
next
  assume "(\<exists>k::nat. c = s + int k * us_per_hour) \<and> c + d \<le> e"
  then obtain k :: nat where c: "c = s + int k * us_per_hour" and le: "c + d \<le> e" by blast
  from c le have "int k * 3600000000 \<le> e - d - s" by (simp add: us_per_hour_def)
  then have "int k \<le> (e - d - s) div 3600000000" by arith
  moreover from c le have "s + d \<le> e" by (simp add: us_per_hour_def) 
  ultimately have "k < slot_count s d e"
    by (simp add: slot_count_def us_per_hour_def)
  with c show "c \<in> set (slot_starts s d e)"
    by (auto simp: slot_starts_def)
qed

lemma in_discovery:
  assumes "t \<in> set (discovery cal p ws)"
  shows "\<exists>k < 7. \<exists>ph \<in> set (preferred_hours p). \<exists>st en c sto.
           day_of_week (ws + timedelta (int k) 0 0) \<in> set (days ph) \<and>
           strptime_HM (ph_start_time ph) = Inr st \<and>
           strptime_HM (ph_end_time ph) = Inr en \<and>
           c \<in> set (slot_starts (combine (date (ws + timedelta (int k) 0 0)) st)
                      (timedelta 0 0 (shopping_duration_minutes p))
                      (combine (date (ws + timedelta (int k) 0 0)) en)) \<and>
           free_slot (get_calendar_events cal (up_user_id p) ws (ws + timedelta 7 0 0))
             (timedelta 0 0 (shopping_duration_minutes p)) c \<and>
           sto \<in> set (find_nearby_stores (home_address p)) \<and>
           t = new_suggestion p (ws + timedelta (int k) 0 0) c sto"
proof -
  let ?ev = "get_calendar_events cal (up_user_id p) ws (ws + timedelta 7 0 0)"
  from assms obtain k where k: "k < 7" and t1: "t \<in> set (day_suggestions p ?ev ws k)"
    by (auto simp: discovery_def)
  let ?cd = "ws + timedelta (int k) 0 0"
  from t1 obtain ph where ph: "ph \<in> set (preferred_hours p)" "day_of_week ?cd \<in> set (days ph)"
    and t2: "t \<in> set (window_suggestions p ?ev ?cd ph)"
    by (auto simp: day_suggestions_def day_windows_def)
  from t2 obtain st where st: "strptime_HM (ph_start_time ph) = Inr st"
    by (cases "strptime_HM (ph_start_time ph)") (auto simp: window_suggestions_def)
  from t2 st obtain en where en: "strptime_HM (ph_end_time ph) = Inr en"
    by (cases "strptime_HM (ph_end_time ph)") (auto simp: window_suggestions_def)
  from t2 st en
  have t3: "t \<in> set (slot_suggestions p ?ev ?cd (combine (date ?cd) st) (combine (date ?cd) en))"
    by (simp add: window_suggestions_def)
  from t3 obtain c sto where
    "c \<in> set (slot_starts (combine (date ?cd) st) (timedelta 0 0 (shopping_duration_minutes p))
                 (combine (date ?cd) en))"
    "free_slot ?ev (timedelta 0 0 (shopping_duration_minutes p)) c"
    "sto \<in> set (find_nearby_stores (home_address p))"
    "t = new_suggestion p ?cd c sto"
    by (auto simp: slot_suggestions_def)
  with k ph st en show ?thesis by blast
qed

lemma result_subset:
  assumes "generate_schedule_suggestions u cal p ws = Some (Inr r)"
  shows "set r \<subseteq> set (number_ids u 0 (discovery cal p ws))"
proof -
  from generate_cases [OF assms]
  have "r = take 5 (sorted_reverse confidence_score (number_ids u 0 (discovery cal p ws)))" by simp
  then have "set r \<subseteq> set (sorted_reverse confidence_score (number_ids u 0 (discovery cal p ws)))"
    using set_take_subset by metis
  then show ?thesis by (simp add: set_sorted_reverse)
qed

lemma result_member:
  assumes "generate_schedule_suggestions u cal p ws = Some (Inr r)" and "s \<in> set r"
  shows "\<exists>k < 7. \<exists>ph \<in> set (preferred_hours p). \<exists>st en c sto i.
           day_of_week (ws + timedelta (int k) 0 0) \<in> set (days ph) \<and>
           strptime_HM (ph_start_time ph) = Inr st \<and>
           strptime_HM (ph_end_time ph) = Inr en \<and>
           c \<in> set (slot_starts (combine (date (ws + timedelta (int k) 0 0)) st)
                      (timedelta 0 0 (shopping_duration_minutes p))
                      (combine (date (ws + timedelta (int k) 0 0)) en)) \<and>
           free_slot (get_calendar_events cal (up_user_id p) ws (ws + timedelta 7 0 0))
             (timedelta 0 0 (shopping_duration_minutes p)) c \<and>
           sto \<in> set (find_nearby_stores (home_address p)) \<and>
           s = (new_suggestion p (ws + timedelta (int k) 0 0) c sto)\<lparr>sg_id := u i\<rparr>"
proof -
  from result_subset [OF assms(1)] assms(2)
  obtain t i where t: "t \<in> set (discovery cal p ws)" and s: "s = t\<lparr>sg_id := u i\<rparr>"
    using in_number_ids by blast
  from in_discovery [OF t] s show ?thesis by blast
qed

lemma digit_value_le: "digit_value c = Some x \<Longrightarrow> x \<le> 9"
  by (auto simp: digit_value_def split: if_splits)

lemma match_H_le: "(h, r) \<in> set (match_H s) \<Longrightarrow> h \<le> 23"
proof (cases s rule: match_H.cases)
  case 1
  assume "(h, r) \<in> set (match_H s)"
  with 1 show ?thesis by simp
next
  case (2 a)
  assume hr: "(h, r) \<in> set (match_H s)"
  show ?thesis
  proof (cases "digit_value a")
    case None
    with hr 2 show ?thesis by simp
  next
    case (Some x)
    with hr 2 digit_value_le [OF Some] show ?thesis by simp
  qed
next
  case (3 a b rest)
  assume hr: "(h, r) \<in> set (match_H s)"
  show ?thesis
  proof (cases "digit_value a")
    case None
    with hr 3 show ?thesis by simp
  next
    case x: (Some x)
    show ?thesis
    proof (cases "digit_value b")
      case None
      with hr 3 x digit_value_le [OF x] show ?thesis by simp
    next
      case y: (Some y)
      with hr 3 x digit_value_le [OF x] digit_value_le [OF y] show ?thesis
        by (auto split: if_splits)
    qed
  qed
qed

lemma match_M_le: "(m, r) \<in> set (match_M s) \<Longrightarrow> m \<le> 59"
proof (cases s rule: match_M.cases)
  case 1
  assume "(m, r) \<in> set (match_M s)"
  with 1 show ?thesis by simp
next
  case (2 a)
  assume hr: "(m, r) \<in> set (match_M s)"
  show ?thesis
  proof (cases "digit_value a")
    case None
    with hr 2 show ?thesis by simp
  next
    case (Some x)
    with hr 2 digit_value_le [OF Some] show ?thesis by simp
  qed
next
  case (3 a b rest)
  assume hr: "(m, r) \<in> set (match_M s)"
  show ?thesis
  proof (cases "digit_value a")
    case None
    with hr 3 show ?thesis by simp
  next
    case x: (Some x)
    show ?thesis
    proof (cases "digit_value b")
      case None
      with hr 3 x digit_value_le [OF x] show ?thesis by simp
    next
      case y: (Some y)
      with hr 3 x digit_value_le [OF x] digit_value_le [OF y] show ?thesis
        by (auto split: if_splits)
    qed
  qed
qed

lemma strptime_HM_range:
  assumes "strptime_HM s = Inr (h, m)"
  shows "h \<le> 23 \<and> m \<le> 59"
proof -
  let ?l = "concat (map (\<lambda>(h, r). concat (map (\<lambda>r'. map (\<lambda>(m, r''). (h, m, r'')) (match_M r'))
                                            (match_colon r))) (match_H s))"
  from assms obtain r rest where l: "?l = (h, m, r) # rest"
    by (auto simp: strptime_HM_def split: list.splits if_splits)
  have "(h, m, r) \<in> set ?l" unfolding l by simp
  then obtain r1 r2 where "(h, r1) \<in> set (match_H s)" "(m, r) \<in> set (match_M r2)"
    by auto
  then show ?thesis using match_H_le match_M_le by blast
qed

lemma combine_bounds:
  assumes "h \<le> 23" "m \<le> 59"
  shows "d * us_per_day \<le> combine d (h, m)" "combine d (h, m) < d * us_per_day + us_per_day"
  using assms by (simp_all add: combine_def us_per_day_def us_per_hour_def us_per_minute_def)

lemma date_slot_start:
  assumes c: "c \<in> set (slot_starts (combine (date cd) st) d (combine (date cd) en))"
    and st: "strptime_HM s1 = Inr st" and en: "strptime_HM s2 = Inr en" and d: "0 \<le> d"
  shows "date c = date cd"
proof -
  obtain h1 m1 h2 m2 where [simp]: "st = (h1, m1)" "en = (h2, m2)" by (cases st, cases en) auto
  from st en have r: "h1 \<le> 23" "m1 \<le> 59" "h2 \<le> 23" "m2 \<le> 59"
    using strptime_HM_range by auto
  from c obtain k :: nat where k: "c = combine (date cd) st + int k * us_per_hour"
    and le: "c + d \<le> combine (date cd) en"
    unfolding slot_starts_iff by blast
  have "0 \<le> int k * us_per_hour" by (simp add: us_per_hour_def)
  with k combine_bounds(1) [OF r(1,2), of "date cd"] have lo: "date cd * 86400000000 \<le> c"
    by (simp add: us_per_day_def)
  from le d combine_bounds(2) [OF r(3,4), of "date cd"] have hi: "c < date cd * 86400000000 + 86400000000"
    by (simp add: us_per_day_def)
  from lo hi have "c div 86400000000 = date cd" by arith
  then show ?thesis by (simp add: date_def [of c] us_per_day_def)
qed

lemma weekend_iff: "day_of_week t \<in> {SATURDAY, SUNDAY} \<longleftrightarrow> weekday t \<in> {5, 6}"
  using weekday_cases [of t] by (auto simp: day_of_week_def)

lemma sorted_reverse_desc: "sorted_wrt (\<lambda>a b. f b \<le> f a) (sorted_reverse f xs)"
proof -
  have "sorted (map f (sort_key f (rev xs)))" by simp
  then have "sorted_wrt (\<lambda>a b. f a \<le> f b) (sort_key f (rev xs))"
    by (simp add: sorted_wrt_map)
  then show ?thesis by (simp add: sorted_reverse_def sorted_wrt_rev)
qed

lemma sorted_reverse_stable:
  "filter (\<lambda>y. f y = k) (sorted_reverse f xs) = filter (\<lambda>y. f y = k) xs"
proof -
  have "filter (\<lambda>y. f y = k) (sorted_reverse f xs)
          = rev (filter (\<lambda>y. f y = k) (sort_key f (rev xs)))"
    unfolding sorted_reverse_def by (rule rev_filter [symmetric])
  also have "\<dots> = rev (filter (\<lambda>y. f y = k) (rev xs))"
    by (simp only: sort_key_stable)
  also have "\<dots> = rev (rev (filter (\<lambda>y. f y = k) xs))"
    by (simp only: rev_filter)
  finally show ?thesis by simp
qed

lemma mset_sorted_reverse: "mset (sorted_reverse f xs) = mset xs"
  by (simp add: sorted_reverse_def)

lemma result_descending:
  assumes "generate_schedule_suggestions u cal p ws = Some (Inr r)"
  shows "sorted_wrt (\<lambda>a b. confidence_score b \<le> confidence_score a) r"
proof -
  from generate_cases [OF assms]
  have r: "r = take 5 (sorted_reverse confidence_score (number_ids u 0 (discovery cal p ws)))"
    by simp
  show ?thesis unfolding r by (rule sorted_wrt_take) (rule sorted_reverse_desc)
qed

lemma suggested_time_slot_suggestions:
  "map suggested_time (concat (map (\<lambda>c. map (new_suggestion p cd c) stores) cs))
     = concat (map (\<lambda>c. replicate (length stores) c) cs)"
proof (induction cs)
  case Nil
  show ?case by simp
next
  case (Cons c cs)
  have "map suggested_time (map (new_suggestion p cd c) stores) = replicate (length stores) c"
    by (simp add: new_suggestion_def comp_def map_replicate_const)
  with Cons show ?case by simp
qed

lemma generate_schedule_suggestions_terminates_aux:
  "\<exists>r. generate_schedule_suggestions u cal p ws = Some r"
proof -
  obtain c where "collect_suggestions u cal p ws = Some c"
    using collect_suggestions_returns by blast
  then show ?thesis
    by (cases c) (simp_all add: generate_schedule_suggestions_def)
qed

lemma prepare_suggestion:
  "prepare_for_mongo isoformat (dict_ScheduleSuggestion g)
     = [(''id'', PStr (sg_id g)), (''suggested_time'', PStr (isoformat (suggested_time g))),
        (''duration_minutes'', PInt (duration_minutes g)),
        (''store'', PDict (dict_GroceryStore (store g))),
        (''reason'', PStr (reason g)),
        (''travel_time_minutes'', PInt (travel_time_minutes g)),
        (''confidence_score'', PFloat (confidence_score g))]"
  by (simp add: dict_ScheduleSuggestion_def)

lemma endswith_keys:
  "\<not> endswith ''id'' [''_at'', ''_time'']"
  "\<not> endswith ''reason'' [''_at'', ''_time'']"
  "\<not> endswith ''user_id'' [''_at'', ''_time'']"
  "\<not> endswith ''week_start'' [''_at'', ''_time'']"
  "\<not> endswith ''status'' [''_at'', ''_time'']"
  "\<not> endswith ''approved_suggestion_id'' [''_at'', ''_time'']"
  "endswith ''suggested_time'' [''_at'', ''_time'']"
  "endswith ''created_at'' [''_at'', ''_time'']"
  by (simp_all add: endswith_def)

lemma parse_prepare_suggestion:
  "parse_from_mongo fromisoformat (prepare_for_mongo isoformat (dict_ScheduleSuggestion g))
     = [(''id'', PStr (sg_id g)),
        (''suggested_time'',
           case fromisoformat (isoformat (suggested_time g)) of
             None \<Rightarrow> PStr (isoformat (suggested_time g)) | Some t \<Rightarrow> PDatetime t),
        (''duration_minutes'', PInt (duration_minutes g)),
        (''store'', PDict (dict_GroceryStore (store g))),
        (''reason'', PStr (reason g)),
        (''travel_time_minutes'', PInt (travel_time_minutes g)),
        (''confidence_score'', PFloat (confidence_score g))]"
  unfolding prepare_suggestion by (simp add: endswith_keys)

lemma parse_prepare_schedule:
  "parse_from_mongo fromisoformat (prepare_for_mongo isoformat (dict_WeeklySchedule w))
     = [(''id'', PStr (ws_id w)), (''user_id'', PStr (ws_user_id w)),
        (''week_start'', PStr (isoformat (ws_week_start w))),
        (''suggestions'',
           PList (map (\<lambda>g. PDict (parse_from_mongo fromisoformat
                                     (prepare_for_mongo isoformat (dict_ScheduleSuggestion g))))
                    (ws_suggestions w))),
        (''approved_suggestion_id'',
           case approved_suggestion_id w of None \<Rightarrow> PNone | Some x \<Rightarrow> PStr x),
        (''status'', PStr (status w)),
        (''created_at'',
           case fromisoformat (isoformat (ws_created_at w)) of
             None \<Rightarrow> PStr (isoformat (ws_created_at w)) | Some t \<Rightarrow> PDatetime t)]"
  by (cases "approved_suggestion_id w")
     (simp_all add: dict_WeeklySchedule_def endswith_keys comp_def)

lemma while_slots_ok:
  assumes "0 \<le> timedelta 0 0 (shopping_duration_minutes p)"
    and "0 \<le> cur"
    and "cur + timedelta 0 0 (shopping_duration_minutes p) \<le> datetime_max"
    and "se + us_per_hour \<le> datetime_max"
  shows "\<exists>r. while_slots u p ev cd dn se cur acc = Some (Inr r)"
  using assms(2,3)
proof (induction cur acc rule: while_slots_induct
    [where d = "timedelta 0 0 (shopping_duration_minutes p)" and se = se])
  case (1 cur acc)
  let ?d = "timedelta 0 0 (shopping_duration_minutes p)"
  have add: "datetime_add cur ?d = Inr (cur + ?d)"
    using 1 assms(1) by (simp add: datetime_add_def)
  show ?case
  proof (cases "cur + ?d \<le> se")
    case False
    then show ?thesis
      by (subst while_slots.simps) (simp add: add)
  next
    case True
    have h: "0 \<le> us_per_hour" by (simp add: us_per_hour_def)
    have next_ok: "datetime_add cur (timedelta 0 1 0) = Inr (cur + us_per_hour)"
      using True assms(1,4) 1(2) h by (simp add: datetime_add_def timedelta_hour)
    have "\<exists>r. while_slots u p ev cd dn se (cur + us_per_hour) acc' = Some (Inr r)" for acc'
      using True assms(4) 1(2) h by (intro "1.IH") auto
    then show ?thesis
      by (subst while_slots.simps) (simp add: add next_ok True Let_def)
  qed
qed

lemma for_pref_hours_ok:
  assumes "0 \<le> shopping_duration_minutes p" "shopping_duration_minutes p \<le> 1440"
    and "0 \<le> cd" "date cd * us_per_day + 2 * us_per_day \<le> datetime_max"
    and "\<forall>ph \<in> set phs. (\<exists>st. strptime_HM (ph_start_time ph) = Inr st) \<and>
                          (\<exists>en. strptime_HM (ph_end_time ph) = Inr en)"
  shows "\<exists>r. for_pref_hours u p ev cd dn phs acc = Some (Inr r)"
  using assms(5)
proof (induction phs arbitrary: acc)
  case Nil
  show ?case by simp
next
  case (Cons ph phs)
  from Cons.prems obtain st en where st: "strptime_HM (ph_start_time ph) = Inr st"
    and en: "strptime_HM (ph_end_time ph) = Inr en" by auto
  obtain h1 m1 h2 m2 where [simp]: "st = (h1, m1)" "en = (h2, m2)" by (cases st, cases en) auto
  from st en have r: "h1 \<le> 23" "m1 \<le> 59" "h2 \<le> 23" "m2 \<le> 59"
    using strptime_HM_range by auto
  have d0: "0 \<le> date cd" using assms(3) by (simp add: date_def us_per_day_def pos_imp_zdiv_nonneg_iff)
  have D: "0 \<le> timedelta 0 0 (shopping_duration_minutes p)"
    "timedelta 0 0 (shopping_duration_minutes p) \<le> us_per_day"
    using assms(1,2) by (simp_all add: timedelta_def us_per_minute_def us_per_day_def)
  have s0: "0 \<le> combine (date cd) st"
    using combine_bounds(1) [OF r(1,2), of "date cd"] d0 by (simp add: us_per_day_def)
  have s1: "combine (date cd) st + timedelta 0 0 (shopping_duration_minutes p) \<le> datetime_max"
    using combine_bounds(2) [OF r(1,2), of "date cd"] D(2) assms(4) by simp
  have e1: "combine (date cd) en + us_per_hour \<le> datetime_max"
    using combine_bounds(2) [OF r(3,4), of "date cd"] assms(4)
    by (simp add: us_per_day_def us_per_hour_def)
  from while_slots_ok [OF D(1) s0 s1 e1] obtain acc' where
    w: "while_slots u p ev cd dn (combine (date cd) en) (combine (date cd) st) acc = Some (Inr acc')"
    by blast
  from Cons.IH [of acc'] Cons.prems obtain r where
    "for_pref_hours u p ev cd dn phs acc' = Some (Inr r)" by auto
  with st en w show ?case by (simp add: Let_def)
qed

lemma for_day_offsets_ok:
  assumes "0 \<le> shopping_duration_minutes p" "shopping_duration_minutes p \<le> 1440"
    and "0 \<le> ws" "ws + timedelta 8 0 0 \<le> datetime_max"
    and "\<forall>ph \<in> set (preferred_hours p). (\<exists>st. strptime_HM (ph_start_time ph) = Inr st) \<and>
                          (\<exists>en. strptime_HM (ph_end_time ph) = Inr en)"
    and "\<forall>k \<in> set ks. k < 7"
  shows "\<exists>r. for_day_offsets u p ev ws ks acc = Some (Inr r)"
  using assms(6)
proof (induction ks arbitrary: acc)
  case Nil
  show ?case by simp
next
  case (Cons k ks)
  then have k: "k < 7" by simp
  let ?cd = "ws + timedelta (int k) 0 0"
  have td: "timedelta (int k) 0 0 = int k * us_per_day" by (simp add: timedelta_def)
  have t8: "timedelta 8 0 0 = 8 * us_per_day" by (simp add: timedelta_def)
  have cd0: "0 \<le> ?cd" using assms(3) by (simp add: td us_per_day_def)
  have cdk: "?cd \<le> ws + 6 * us_per_day" using k by (simp add: td us_per_day_def)
  have cd: "datetime_add ws (timedelta (int k) 0 0) = Inr ?cd"
    using cd0 cdk assms(4) by (simp add: datetime_add_def t8 us_per_day_def)
  have "date ?cd * 86400000000 \<le> ?cd" by (simp add: date_def us_per_day_def)
  with cdk assms(4) have room: "date ?cd * us_per_day + 2 * us_per_day \<le> datetime_max"
    by (simp add: t8 us_per_day_def)
  define phs where "phs = filter (\<lambda>ph. lower (strftime_A ?cd) \<in> set (map value_of (days ph)))
                            (preferred_hours p)"
  have "\<forall>ph \<in> set phs. (\<exists>st. strptime_HM (ph_start_time ph) = Inr st) \<and>
                          (\<exists>en. strptime_HM (ph_end_time ph) = Inr en)"
    using assms(5) by (simp add: phs_def)
  from for_pref_hours_ok [OF assms(1,2) cd0 room this] obtain acc' where
    w: "for_pref_hours u p ev ?cd (lower (strftime_A ?cd)) phs acc = Some (Inr acc')" by blast
  from Cons.IH [of acc] Cons.IH [of acc'] Cons.prems obtain r r' where
    "for_day_offsets u p ev ws ks acc = Some (Inr r)"
    "for_day_offsets u p ev ws ks acc' = Some (Inr r')" by auto
  with cd w show ?case by (simp add: Let_def phs_def)
qed

lemma collect_suggestions_ok:
  assumes "0 \<le> shopping_duration_minutes p" "shopping_duration_minutes p \<le> 1440"
    and "0 \<le> ws" "ws + timedelta 8 0 0 \<le> datetime_max"
    and "\<forall>ph \<in> set (preferred_hours p). (\<exists>st. strptime_HM (ph_start_time ph) = Inr st) \<and>
                          (\<exists>en. strptime_HM (ph_end_time ph) = Inr en)"
  shows "collect_suggestions u cal p ws = Some (Inr (number_ids u 0 (discovery cal p ws)))"
proof -
  have we: "datetime_add ws (timedelta 7 0 0) = Inr (ws + timedelta 7 0 0)"
    using assms(3,4) by (simp add: datetime_add_def timedelta_def us_per_day_def)
  have "\<forall>k \<in> set [0..<7]. k < (7::nat)" by simp
  from for_day_offsets_ok [OF assms this] obtain r where
    "for_day_offsets u p (get_calendar_events cal (up_user_id p) ws (ws + timedelta 7 0 0)) ws
       [0..<7] [] = Some (Inr r)" by blast
  with we have c: "collect_suggestions u cal p ws = Some (Inr r)"
    by (simp add: collect_suggestions_def Let_def)
  from collect_suggestions_eq [OF c] c show ?thesis by simp
qed

lemma generate_ok:
  assumes "0 \<le> shopping_duration_minutes p" "shopping_duration_minutes p \<le> 1440"
    and "0 \<le> ws" "ws + timedelta 8 0 0 \<le> datetime_max"
    and "\<forall>ph \<in> set (preferred_hours p). (\<exists>st. strptime_HM (ph_start_time ph) = Inr st) \<and>
                          (\<exists>en. strptime_HM (ph_end_time ph) = Inr en)"
  shows "generate_schedule_suggestions u cal p ws
           = Some (Inr (take 5 (sorted_reverse confidence_score (number_ids u 0 (discovery cal p ws)))))"
  using collect_suggestions_ok [OF assms] by (simp add: generate_schedule_suggestions_def)

lemma monday_plus_days:
  "k < 7 \<Longrightarrow> date (monday n + timedelta (int k) 0 0) = int n * 7 + int k"
  by (simp add: monday_def combine_def timedelta_def date_def us_per_day_def)

lemma upt_7: "[0..<7] = [0, 1, 2, 3, 4, 5, 6 :: nat]"
  by code_simp

lemma day_of_week_monday_plus:
  "k < 7 \<Longrightarrow> day_of_week (monday n + timedelta (int k) 0 0)
     = [MONDAY, TUESDAY, WEDNESDAY, THURSDAY, FRIDAY, SATURDAY, SUNDAY] ! k"
proof -
  assume k: "k < 7"
  have "(int n * 7 + int k) mod 7 = int k" using k by simp
  then have "weekday (monday n + timedelta (int k) 0 0) = k"
    by (simp add: weekday_def monday_plus_days [OF k])
  then show ?thesis by (simp add: day_of_week_def)
qed

lemma strptime_examples:
  "strptime_HM ''09:00'' = Inr (9, 0)" "strptime_HM ''11:00'' = Inr (11, 0)"
  by code_simp+

lemma saturday_slot_starts:
  "slot_starts (saturday n 9 0) (timedelta 0 0 60) (saturday n 11 0)
     = [saturday n 9 0, saturday n 10 0]"
proof -
  have a: "saturday n 9 0 + timedelta 0 0 60 \<le> saturday n 11 0"
    and b: "saturday n 9 0 + us_per_hour = saturday n 10 0"
    and c: "saturday n 10 0 + timedelta 0 0 60 \<le> saturday n 11 0"
    and d: "\<not> saturday n 10 0 + us_per_hour + timedelta 0 0 60 \<le> saturday n 11 0"
    by (simp_all add: saturday_def combine_def timedelta_def us_per_day_def us_per_hour_def
        us_per_minute_def)
  show ?thesis
    using slot_starts_Cons [OF a] slot_starts_Cons [OF c] slot_starts_Nil [OF d]
    by (simp add: b)
qed

lemma saturday_discovery:
  assumes p: "preferred_hours p = [saturday_morning]" "shopping_duration_minutes p = 60"
    and e: "ev_start_time e = saturday n 9 30"
  shows "discovery [e] p (monday n)
     = concat (map (\<lambda>c. map (new_suggestion p (monday n + timedelta 5 0 0) c)
                            (find_nearby_stores (home_address p)))
         (filter (\<lambda>c. \<not> conflict c (c + timedelta 0 0 60) e) [saturday n 9 0, saturday n 10 0]))"
proof -
  have ev: "get_calendar_events [e] (up_user_id p) (monday n) (monday n + timedelta 7 0 0) = [e]"
    using e by (simp add: get_calendar_events_def monday_def saturday_def combine_def
        timedelta_def us_per_day_def us_per_hour_def us_per_minute_def)
  have dw: "day_windows p (monday n + timedelta (int k) 0 0)
              = (if k = 5 then [saturday_morning] else [])" if "k < 7" for k
  proof -
    from that have "k = 0 \<or> k = 1 \<or> k = 2 \<or> k = 3 \<or> k = 4 \<or> k = 5 \<or> k = 6" by arith
    then show ?thesis
      using day_of_week_monday_plus [OF that, of n]
      by (auto simp: day_windows_def p(1) saturday_morning_def)
  qed
  have ds: "day_suggestions p [e] (monday n) k
              = (if k = 5 then window_suggestions p [e] (monday n + timedelta 5 0 0) saturday_morning
                 else [])" if "k < 7" for k
    using dw [OF that] by (simp add: day_suggestions_def)
  have sat: "combine (date (monday n + timedelta 5 0 0)) tm = combine (int n * 7 + 5) tm" for tm
    using monday_plus_days [of 5 n] by simp
  have ws: "window_suggestions p [e] (monday n + timedelta 5 0 0) saturday_morning
      = concat (map (\<lambda>c. map (new_suggestion p (monday n + timedelta 5 0 0) c)
                            (find_nearby_stores (home_address p)))
         (filter (\<lambda>c. \<not> conflict c (c + timedelta 0 0 60) e) [saturday n 9 0, saturday n 10 0]))"
    using saturday_slot_starts [of n]
    by (simp add: window_suggestions_def saturday_morning_def strptime_examples
        slot_suggestions_def p(2) sat free_slot_def saturday_def)
  show ?thesis
    unfolding discovery_def ev upt_7 by (simp add: ds ws)
qed

lemma saturday_conflicts:
  assumes "ev_start_time e = saturday n 9 30"
  shows "conflict (saturday n 9 0) (saturday n 10 0) e"
    and "ev_end_time e = saturday n 10 0 \<Longrightarrow> conflict (saturday n 10 0) (saturday n 11 0) e"
    and "ev_end_time e = saturday n 9 59 \<Longrightarrow> \<not> conflict (saturday n 10 0) (saturday n 11 0) e"
  using assms
  by (simp_all add: conflict_def saturday_def combine_def us_per_day_def us_per_hour_def
      us_per_minute_def)

lemma saturday_plus_hour: "saturday n h m + timedelta 0 0 60 = saturday n (Suc h) m"
  by (simp add: saturday_def combine_def timedelta_def us_per_hour_def us_per_minute_def)

section \<open>Properties of the scheduling service\<close>

text \<open>
  C10: \<open>generate_schedule_suggestions\<close> terminates on every input, whatever the sign of the
  shopping duration: the scan of a window adds one hour to the current time in every
  iteration, so it reaches the end of the window (or leaves the datetime range) after
  finitely many steps. In the model a run that does not end has the value \<open>None\<close>; every
  run has a value \<open>Some r\<close>, a result or a raised error.
\<close>

theorem generate_schedule_suggestions_terminates:
  "\<exists>r. generate_schedule_suggestions uuid4 calendar preferences week_start = Some r"
proof -
  obtain c where "collect_suggestions uuid4 calendar preferences week_start = Some c"
    using collect_suggestions_returns by blast
  then show ?thesis
    by (cases c) (simp_all add: generate_schedule_suggestions_def)
qed

text \<open>
  C1: every suggestion that \<open>generate_schedule_suggestions\<close> returns occupies the slot from
  its suggested time to its suggested time plus its duration, and the conflict predicate
  is false for that slot against every calendar event fetched for the week. A candidate
  slot with a conflicting event therefore yields no suggestion at all.
\<close>

theorem suggestions_conflict_free:
  assumes "generate_schedule_suggestions uuid4 calendar preferences week_start = Some (Inr result)"
    and "s \<in> set result"
    and "e \<in> set (get_calendar_events calendar (up_user_id preferences) week_start
                    (week_start + timedelta 7 0 0))"
  shows "\<not> conflict (suggested_time s) (suggested_time s + timedelta 0 0 (duration_minutes s)) e"
proof -
  from result_member [OF assms(1,2)] obtain cd c sto i where
    free: "free_slot (get_calendar_events calendar (up_user_id preferences) week_start
             (week_start + timedelta 7 0 0))
             (timedelta 0 0 (shopping_duration_minutes preferences)) c"
    and s: "s = (new_suggestion preferences cd c sto)\<lparr>sg_id := uuid4 i\<rparr>"
    by blast
  from s have "suggested_time s = c" "duration_minutes s = shopping_duration_minutes preferences"
    by (simp_all add: new_suggestion_def)
  with free assms(3) show ?thesis
    by (simp add: free_slot_def)
qed

theorem suggestions_conflict_free_witness:
  "\<exists>r s. generate_schedule_suggestions example_uuid4 [saturday_event 9 59]
            (example_preferences 60 [saturday_morning]) example_week = Some (Inr r) \<and>
          s \<in> set r \<and>
          saturday_event 9 59 \<in> set (get_calendar_events [saturday_event 9 59]
            (up_user_id (example_preferences 60 [saturday_morning])) example_week
            (example_week + timedelta 7 0 0)) \<and>
          \<not> conflict (suggested_time s) (suggested_time s + timedelta 0 0 (duration_minutes s))
              (saturday_event 9 59)"
proof -
  have "case generate_schedule_suggestions example_uuid4 [saturday_event 9 59]
            (example_preferences 60 [saturday_morning]) example_week of
          Some (Inr r) \<Rightarrow> r \<noteq> [] | _ \<Rightarrow> False"
    by code_simp
  then obtain r where g: "generate_schedule_suggestions example_uuid4 [saturday_event 9 59]
            (example_preferences 60 [saturday_morning]) example_week = Some (Inr r)"
    and "r \<noteq> []"
    by (auto split: option.splits sum.splits)
  then obtain s where s: "s \<in> set r" by (cases r) auto
  have e: "saturday_event 9 59 \<in> set (get_calendar_events [saturday_event 9 59]
            (up_user_id (example_preferences 60 [saturday_morning])) example_week
            (example_week + timedelta 7 0 0))"
    by code_simp
  from suggestions_conflict_free [OF g s e] g s e show ?thesis by blast
qed

text \<open>
  C7: every suggestion that \<open>generate_schedule_suggestions\<close> returns was emitted for one of
  the seven days of the week, which its reason names; its confidence score is 0.8 when
  that day is a Saturday or a Sunday and 0.6 otherwise. With a duration that is not
  negative the suggested time lies on that day, so the score is 0.8 exactly when the
  suggested time falls on a Saturday or Sunday. The result is in descending order of
  score, so no weekday suggestion precedes a weekend suggestion.
\<close>

theorem confidence_by_weekday:
  assumes "generate_schedule_suggestions uuid4 calendar preferences week_start = Some (Inr result)"
    and "s \<in> set result"
  shows "(\<exists>k < 7.
            reason s = ''Free time on '' @ strftime_A (week_start + timedelta (int k) 0 0)
                         @ '' during your preferred hours'' \<and>
            confidence_score s =
              (if weekday (week_start + timedelta (int k) 0 0) \<in> {5, 6} then 0.8 else 0.6) \<and>
            (0 \<le> shopping_duration_minutes preferences \<longrightarrow>
               date (suggested_time s) = date (week_start + timedelta (int k) 0 0))) \<and>
         (0 \<le> shopping_duration_minutes preferences \<longrightarrow>
            confidence_score s = (if weekday (suggested_time s) \<in> {5, 6} then 0.8 else 0.6)) \<and>
         (\<forall>i j. i < j \<longrightarrow> j < length result \<longrightarrow>
            confidence_score (result ! j) \<le> confidence_score (result ! i))"
proof -
  from result_member [OF assms] obtain k and ph :: PreferredHours and st en c sto i where
    k: "k < 7"
    and st: "strptime_HM (ph_start_time ph) = Inr st" and en: "strptime_HM (ph_end_time ph) = Inr en"
    and c: "c \<in> set (slot_starts (combine (date (week_start + timedelta (int k) 0 0)) st)
                      (timedelta 0 0 (shopping_duration_minutes preferences))
                      (combine (date (week_start + timedelta (int k) 0 0)) en))"
    and s: "s = (new_suggestion preferences (week_start + timedelta (int k) 0 0) c sto)\<lparr>sg_id := uuid4 i\<rparr>"
    by blast
  let ?cd = "week_start + timedelta (int k) 0 0"
  have r: "reason s = ''Free time on '' @ strftime_A ?cd @ '' during your preferred hours''"
    and conf: "confidence_score s = (if weekday ?cd \<in> {5, 6} then 0.8 else 0.6)"
    and time: "suggested_time s = c"
    unfolding s new_suggestion_def weekend_iff by simp_all
  have dt: "date (suggested_time s) = date ?cd" if "0 \<le> shopping_duration_minutes preferences"
  proof -
    from that have "0 \<le> timedelta 0 0 (shopping_duration_minutes preferences)"
      by (simp add: timedelta_def us_per_minute_def)
    from date_slot_start [OF c st en this] time show ?thesis by simp
  qed
  have wd: "weekday (suggested_time s) = weekday ?cd" if "0 \<le> shopping_duration_minutes preferences"
    using dt [OF that] by (simp add: weekday_def)
  have first: "\<exists>k < 7.
            reason s = ''Free time on '' @ strftime_A (week_start + timedelta (int k) 0 0)
                         @ '' during your preferred hours'' \<and>
            confidence_score s =
              (if weekday (week_start + timedelta (int k) 0 0) \<in> {5, 6} then 0.8 else 0.6) \<and>
            (0 \<le> shopping_duration_minutes preferences \<longrightarrow>
               date (suggested_time s) = date (week_start + timedelta (int k) 0 0))"
    using k r conf dt by blast
  have second: "0 \<le> shopping_duration_minutes preferences \<longrightarrow>
            confidence_score s = (if weekday (suggested_time s) \<in> {5, 6} then 0.8 else 0.6)"
    using conf wd by simp
  have third: "\<forall>i j. i < j \<longrightarrow> j < length result \<longrightarrow>
            confidence_score (result ! j) \<le> confidence_score (result ! i)"
    using result_descending [OF assms(1)] by (simp add: sorted_wrt_iff_nth_less)
  from first second third show ?thesis by blast
qed

theorem confidence_by_weekday_witness:
  "\<exists>r s. generate_schedule_suggestions example_uuid4 [saturday_event 9 59]
            (example_preferences 60 [saturday_morning]) example_week = Some (Inr r) \<and>
          s \<in> set r \<and>
          0 \<le> shopping_duration_minutes (example_preferences 60 [saturday_morning]) \<and>
          weekday (suggested_time s) = 5 \<and>
          confidence_score s = 0.8"
proof -
  have "case generate_schedule_suggestions example_uuid4 [saturday_event 9 59]
            (example_preferences 60 [saturday_morning]) example_week of
          Some (Inr r) \<Rightarrow> r \<noteq> [] \<and> list_all (\<lambda>s. weekday (suggested_time s) = 5) r | _ \<Rightarrow> False"
    by code_simp
  then obtain r where g: "generate_schedule_suggestions example_uuid4 [saturday_event 9 59]
            (example_preferences 60 [saturday_morning]) example_week = Some (Inr r)"
    and "r \<noteq> []" and wd: "list_all (\<lambda>s. weekday (suggested_time s) = 5) r"
    by (auto split: option.splits sum.splits)
  then obtain s where s: "s \<in> set r" by (cases r) auto
  with wd have w: "weekday (suggested_time s) = 5" by (simp add: list_all_iff)
  have d: "0 \<le> shopping_duration_minutes (example_preferences 60 [saturday_morning])"
    by (simp add: example_preferences_def)
  from confidence_by_weekday [OF g s] d w have "confidence_score s = 0.8" by simp
  with g s d w show ?thesis by blast
qed

text \<open>
  A run with a duration of zero minutes, and one with a duration of minus thirty
  minutes, on the Saturday window 09:00-11:00 and an empty calendar: no error is raised,
  and the five suggestions returned have the duration of the preferences.
\<close>

theorem zero_duration_counterexample:
  "shopping_duration_minutes (example_preferences 0 [saturday_morning]) \<le> 0 \<and>
   map_option (map_sum id (map duration_minutes))
     (generate_schedule_suggestions example_uuid4 []
        (example_preferences 0 [saturday_morning]) example_week) = Some (Inr [0, 0, 0, 0, 0]) \<and>
   shopping_duration_minutes (example_preferences (- 30) [saturday_morning]) \<le> 0 \<and>
   map_option (map_sum id (map duration_minutes))
     (generate_schedule_suggestions example_uuid4 []
        (example_preferences (- 30) [saturday_morning]) example_week)
     = Some (Inr [- 30, - 30, - 30, - 30, - 30])"
  by code_simp

text \<open>
  C4 (as amended): for preferences whose shopping duration is zero or negative,
  \<open>generate_schedule_suggestions\<close> does not run forever, and it does not reject the
  duration: when it returns, every suggestion carries the duration of the preferences,
  so its slot has zero or negative length.
\<close>

theorem nonpositive_duration_kept:
  assumes "shopping_duration_minutes preferences \<le> 0"
  shows "\<exists>res. generate_schedule_suggestions uuid4 calendar preferences week_start = Some res \<and>
           (\<forall>r s. res = Inr r \<longrightarrow> s \<in> set r \<longrightarrow>
              duration_minutes s = shopping_duration_minutes preferences \<and> duration_minutes s \<le> 0)"
proof -
  obtain res where res: "generate_schedule_suggestions uuid4 calendar preferences week_start = Some res"
    using generate_schedule_suggestions_terminates_aux by blast
  have "duration_minutes s = shopping_duration_minutes preferences \<and> duration_minutes s \<le> 0"
    if "res = Inr r" and "s \<in> set r" for r s
  proof -
    from res that have g: "generate_schedule_suggestions uuid4 calendar preferences week_start = Some (Inr r)"
      by simp
    from result_member [OF g that(2)] obtain cd c sto i where
      "s = (new_suggestion preferences cd c sto)\<lparr>sg_id := uuid4 i\<rparr>" by blast
    then have "duration_minutes s = shopping_duration_minutes preferences"
      by (simp add: new_suggestion_def)
    with assms show ?thesis by simp
  qed
  with res show ?thesis by blast
qed

theorem nonpositive_duration_kept_witness:
  "shopping_duration_minutes (example_preferences 0 [saturday_morning]) \<le> 0 \<and>
   (\<exists>r s. generate_schedule_suggestions example_uuid4 []
             (example_preferences 0 [saturday_morning]) example_week = Some (Inr r) \<and>
           s \<in> set r \<and> duration_minutes s = 0)"
proof -
  have d: "shopping_duration_minutes (example_preferences 0 [saturday_morning]) \<le> 0"
    by (simp add: example_preferences_def)
  have "case generate_schedule_suggestions example_uuid4 []
            (example_preferences 0 [saturday_morning]) example_week of
          Some (Inr r) \<Rightarrow> r \<noteq> [] | _ \<Rightarrow> False"
    by code_simp
  then obtain r where g: "generate_schedule_suggestions example_uuid4 []
            (example_preferences 0 [saturday_morning]) example_week = Some (Inr r)"
    and "r \<noteq> []"
    by (auto split: option.splits sum.splits)
  then obtain s where s: "s \<in> set r" by (cases r) auto
  from nonpositive_duration_kept [OF d, of example_uuid4 "[]" example_week] g s
  have "duration_minutes s = shopping_duration_minutes (example_preferences 0 [saturday_morning])"
    by auto
  then have "duration_minutes s = 0" by (simp add: example_preferences_def)
  with d g s show ?thesis by blast
qed

text \<open>
  The scenario of C2: one window 09:00-11:00 on Saturday, a duration of 60 minutes, an
  event on that Saturday from 09:30 to 10:00. The slot 10:00-11:00 conflicts with the
  event, whose end is the start of the slot, and nothing is returned.
\<close>

theorem saturday_scenario_counterexample:
  "conflict (at_time (ymd 2026 11 7) 10 0) (at_time (ymd 2026 11 7) 11 0) (saturday_event 10 0) \<and>
   generate_schedule_suggestions example_uuid4 [saturday_event 10 0]
     (example_preferences 60 [saturday_morning]) example_week = Some (Inr [])"
  by code_simp

text \<open>
  C2 (as amended): for every week, with one window 09:00-11:00 on Saturday, a duration of
  60 minutes and one calendar event that starts at 09:30 on the Saturday of the week: the
  candidate of 09:00 conflicts with the event. When the event ends at 10:00, the candidate
  of 10:00 conflicts too, because the end of the event equals the start of the slot and
  the comparisons of the conflict predicate are inclusive, and the result is empty. When
  the event ends at 09:59, the candidate of 10:00 does not conflict, and the result is
  two suggestions at 10:00 of 60 minutes, one for each of the two nearby stores, each
  with confidence 0.8. The week starts on a Monday at 00:00 and ends at least a day
  before the largest datetime.
\<close>

theorem saturday_scenario:
  assumes "monday n + timedelta 8 0 0 \<le> datetime_max"
    and "preferred_hours p = [saturday_morning]" and "shopping_duration_minutes p = 60"
    and "ev_start_time e = saturday n 9 30"
  shows "(ev_end_time e = saturday n 10 0 \<longrightarrow>
            conflict (saturday n 9 0) (saturday n 10 0) e \<and>
            conflict (saturday n 10 0) (saturday n 11 0) e \<and>
            generate_schedule_suggestions uuid4 [e] p (monday n) = Some (Inr [])) \<and>
         (ev_end_time e = saturday n 9 59 \<longrightarrow>
            conflict (saturday n 9 0) (saturday n 10 0) e \<and>
            \<not> conflict (saturday n 10 0) (saturday n 11 0) e \<and>
            (\<exists>result.
               generate_schedule_suggestions uuid4 [e] p (monday n) = Some (Inr result) \<and>
               map (\<lambda>s. (suggested_time s, duration_minutes s, store s, confidence_score s)) result
                 = [(saturday n 10 0, 60, MOCK_GROCERY_STORES ! 0, 0.8),
                    (saturday n 10 0, 60, MOCK_GROCERY_STORES ! 1, 0.8)]))"
proof -
  have parse: "\<forall>ph \<in> set (preferred_hours p).
       (\<exists>st. strptime_HM (ph_start_time ph) = Inr st) \<and> (\<exists>en. strptime_HM (ph_end_time ph) = Inr en)"
    by (simp add: assms(2) saturday_morning_def strptime_examples)
  have m0: "0 \<le> monday n"
    by (simp add: monday_def combine_def us_per_day_def)
  have gen: "generate_schedule_suggestions uuid4 [e] p (monday n)
      = Some (Inr (take 5 (sorted_reverse confidence_score
                             (number_ids uuid4 0 (discovery [e] p (monday n))))))"
    by (rule generate_ok [OF _ _ m0 assms(1) parse]) (simp_all add: assms(3))
  note disc = saturday_discovery [OF assms(2,3,4)]
  note conf = saturday_conflicts [OF assms(4)]
  have first: "generate_schedule_suggestions uuid4 [e] p (monday n) = Some (Inr [])"
    if "ev_end_time e = saturday n 10 0"
    unfolding gen disc using conf(1) conf(2) [OF that]
    by (simp add: saturday_plus_hour sorted_reverse_def)
  have sat: "day_of_week (monday n + timedelta 5 0 0) = SATURDAY"
    using day_of_week_monday_plus [of 5 n] by simp
  have second: "\<exists>result.
               generate_schedule_suggestions uuid4 [e] p (monday n) = Some (Inr result) \<and>
               map (\<lambda>s. (suggested_time s, duration_minutes s, store s, confidence_score s)) result
                 = [(saturday n 10 0, 60, MOCK_GROCERY_STORES ! 0, 0.8),
                    (saturday n 10 0, 60, MOCK_GROCERY_STORES ! 1, 0.8)]"
    if "ev_end_time e = saturday n 9 59"
    unfolding gen disc using conf(1) conf(3) [OF that]
    by (simp add: saturday_plus_hour sorted_reverse_def find_nearby_stores_def
        MOCK_GROCERY_STORES_def new_suggestion_def sat assms(3))
  from first second conf show ?thesis by blast
qed

theorem saturday_scenario_witness:
  "monday 105703 = example_week \<and>
   monday 105703 + timedelta 8 0 0 \<le> datetime_max \<and>
   preferred_hours (example_preferences 60 [saturday_morning]) = [saturday_morning] \<and>
   shopping_duration_minutes (example_preferences 60 [saturday_morning]) = 60 \<and>
   ev_start_time (saturday_event 10 0) = saturday 105703 9 30 \<and>
   ev_end_time (saturday_event 10 0) = saturday 105703 10 0 \<and>
   generate_schedule_suggestions example_uuid4 [saturday_event 10 0]
     (example_preferences 60 [saturday_morning]) (monday 105703) = Some (Inr [])"
proof -
  have a: "monday 105703 = example_week"
    by (simp add: monday_def example_week_def at_time_def ymd_def days_before_year_def
        days_before_month_def is_leap_def)
  have b: "monday 105703 + timedelta 8 0 0 \<le> datetime_max"
    by (simp add: monday_def combine_def timedelta_def datetime_max_def us_per_day_def)
  have c: "preferred_hours (example_preferences 60 [saturday_morning]) = [saturday_morning]"
    by (simp add: example_preferences_def)
  have d: "shopping_duration_minutes (example_preferences 60 [saturday_morning]) = 60"
    by (simp add: example_preferences_def)
  have e: "ev_start_time (saturday_event 10 0) = saturday 105703 9 30"
    by (simp add: saturday_event_def saturday_def at_time_def ymd_def days_before_year_def
        days_before_month_def is_leap_def)
  have f: "ev_end_time (saturday_event 10 0) = saturday 105703 10 0"
    by (simp add: saturday_event_def saturday_def at_time_def ymd_def days_before_year_def
        days_before_month_def is_leap_def)
  note g = saturday_scenario [OF b c d e, of example_uuid4, THEN conjunct1, rule_format, OF f,
      THEN conjunct2, THEN conjunct2]
  from a b c d e f g show ?thesis by (intro conjI)
qed

text \<open>
  Two windows on Saturday, listed 14:00-15:00 first and 09:00-10:00 second: the
  suggestions of 14:00 precede those of 09:00, with equal scores on the same day.
\<close>

theorem discovery_order_counterexample:
  "map_option (map_sum id (map (\<lambda>s. (suggested_time s, confidence_score s))))
     (generate_schedule_suggestions example_uuid4 []
        (example_preferences 60 [saturday_window ''14:00'' ''15:00'', saturday_window ''09:00'' ''10:00''])
        example_week)
     = Some (Inr [(at_time (ymd 2026 11 7) 14 0, 0.8), (at_time (ymd 2026 11 7) 14 0, 0.8),
                  (at_time (ymd 2026 11 7) 9 0, 0.8), (at_time (ymd 2026 11 7) 9 0, 0.8)]) \<and>
   at_time (ymd 2026 11 7) 9 0 < at_time (ymd 2026 11 7) 14 0"
  by code_simp

text \<open>
  C5 (as amended): the list returned by \<open>generate_schedule_suggestions\<close> has at most five
  elements; it is the first five of the emitted suggestions ranked by confidence score in
  descending order, where the ranking is a permutation that keeps suggestions of equal
  score in the order of their discovery. The order of discovery is that of \<open>discovery\<close>:
  by day offset from the start of the week, then by the position of the window in the
  preferences, then by hour within the window, then by the position of the store.
\<close>

theorem ranked_top_five:
  assumes "generate_schedule_suggestions uuid4 calendar preferences week_start = Some (Inr result)"
  shows "\<exists>emitted ranked.
           collect_suggestions uuid4 calendar preferences week_start = Some (Inr emitted) \<and>
           emitted = number_ids uuid4 0 (discovery calendar preferences week_start) \<and>
           mset ranked = mset emitted \<and>
           sorted_wrt (\<lambda>a b. confidence_score b \<le> confidence_score a) ranked \<and>
           (\<forall>x. filter (\<lambda>s. confidence_score s = x) ranked
                  = filter (\<lambda>s. confidence_score s = x) emitted) \<and>
           result = take 5 ranked \<and>
           length result \<le> 5"
proof -
  let ?emitted = "number_ids uuid4 0 (discovery calendar preferences week_start)"
  let ?ranked = "sorted_reverse confidence_score ?emitted"
  from generate_cases [OF assms]
  have c: "collect_suggestions uuid4 calendar preferences week_start = Some (Inr ?emitted)"
    and r: "result = take 5 ?ranked" by simp_all
  have "mset ?ranked = mset ?emitted" by (rule mset_sorted_reverse)
  moreover have "sorted_wrt (\<lambda>a b. confidence_score b \<le> confidence_score a) ?ranked"
    by (rule sorted_reverse_desc)
  moreover have "\<forall>x. filter (\<lambda>s. confidence_score s = x) ?ranked
                  = filter (\<lambda>s. confidence_score s = x) ?emitted"
    by (simp add: sorted_reverse_stable)
  moreover have "length result \<le> 5" unfolding r by simp
  ultimately show ?thesis using c r by blast
qed

theorem ranked_top_five_witness:
  "\<exists>result emitted ranked.
     generate_schedule_suggestions example_uuid4 []
        (example_preferences 60 [saturday_window ''14:00'' ''15:00'', saturday_window ''09:00'' ''10:00''])
        example_week = Some (Inr result) \<and>
     collect_suggestions example_uuid4 []
        (example_preferences 60 [saturday_window ''14:00'' ''15:00'', saturday_window ''09:00'' ''10:00''])
        example_week = Some (Inr emitted) \<and>
     mset ranked = mset emitted \<and>
     result = take 5 ranked \<and>
     length result = 4"
proof -
  let ?p = "example_preferences 60 [saturday_window ''14:00'' ''15:00'', saturday_window ''09:00'' ''10:00'']"
  have "case generate_schedule_suggestions example_uuid4 [] ?p example_week of
          Some (Inr r) \<Rightarrow> length r = 4 | _ \<Rightarrow> False"
    by code_simp
  then obtain r where g: "generate_schedule_suggestions example_uuid4 [] ?p example_week = Some (Inr r)"
    and l: "length r = 4"
    by (auto split: option.splits sum.splits)
  from ranked_top_five [OF g] l g show ?thesis by blast
qed

text \<open>
  C6: the suggestions collected are, for each day offset and each window that names the
  day, those of the window. The suggested times of a window whose times parse are the
  conflict-free slot starts of the window, each once per nearby store; the slot starts
  are the window's start time and every whole hour after it, as long as the slot of the
  shopping duration ends at or before the window's end time. A duration longer than the
  span of the window leaves the window without suggestions.
\<close>

theorem window_slot_enumeration:
  assumes "collect_suggestions uuid4 calendar preferences week_start = Some (Inr emitted)"
  shows "emitted =
           number_ids uuid4 0
             (concat (map (\<lambda>k. concat (map
                  (window_suggestions preferences
                     (get_calendar_events calendar (up_user_id preferences) week_start
                        (week_start + timedelta 7 0 0))
                     (week_start + timedelta (int k) 0 0))
                  (filter (\<lambda>ph. day_of_week (week_start + timedelta (int k) 0 0) \<in> set (days ph))
                     (preferred_hours preferences))))
                [0..<7])) \<and>
         (\<forall>events current_date ph st en.
            strptime_HM (ph_start_time ph) = Inr st \<longrightarrow>
            strptime_HM (ph_end_time ph) = Inr en \<longrightarrow>
              map suggested_time (window_suggestions preferences events current_date ph)
                = concat (map (\<lambda>c. replicate (length (find_nearby_stores (home_address preferences))) c)
                    (filter (free_slot events (timedelta 0 0 (shopping_duration_minutes preferences)))
                       (slot_starts (combine (date current_date) st)
                          (timedelta 0 0 (shopping_duration_minutes preferences))
                          (combine (date current_date) en)))) \<and>
              (combine (date current_date) en - combine (date current_date) st
                 < timedelta 0 0 (shopping_duration_minutes preferences) \<longrightarrow>
               window_suggestions preferences events current_date ph = [])) \<and>
         (\<forall>start d slot_end.
            slot_starts start d slot_end
              = map (\<lambda>k. start + int k * us_per_hour) [0..<length (slot_starts start d slot_end)] \<and>
            (\<forall>c. c \<in> set (slot_starts start d slot_end) \<longleftrightarrow>
               (\<exists>k::nat. c = start + int k * us_per_hour) \<and> c + d \<le> slot_end))"
proof -
  have a: "emitted =
           number_ids uuid4 0
             (concat (map (\<lambda>k. concat (map
                  (window_suggestions preferences
                     (get_calendar_events calendar (up_user_id preferences) week_start
                        (week_start + timedelta 7 0 0))
                     (week_start + timedelta (int k) 0 0))
                  (filter (\<lambda>ph. day_of_week (week_start + timedelta (int k) 0 0) \<in> set (days ph))
                     (preferred_hours preferences))))
                [0..<7]))"
    using collect_suggestions_eq [OF assms]
    unfolding discovery_def day_suggestions_def day_windows_def .
  have b: "map suggested_time (window_suggestions preferences events current_date ph)
                = concat (map (\<lambda>c. replicate (length (find_nearby_stores (home_address preferences))) c)
                    (filter (free_slot events (timedelta 0 0 (shopping_duration_minutes preferences)))
                       (slot_starts (combine (date current_date) st)
                          (timedelta 0 0 (shopping_duration_minutes preferences))
                          (combine (date current_date) en)))) \<and>
              (combine (date current_date) en - combine (date current_date) st
                 < timedelta 0 0 (shopping_duration_minutes preferences) \<longrightarrow>
               window_suggestions preferences events current_date ph = [])"
    if "strptime_HM (ph_start_time ph) = Inr st" "strptime_HM (ph_end_time ph) = Inr en"
    for events current_date and ph :: PreferredHours and st en
    using that
    by (simp add: window_suggestions_def slot_suggestions_def suggested_time_slot_suggestions
        slot_starts_Nil)
  have c: "slot_starts start d slot_end
              = map (\<lambda>k. start + int k * us_per_hour) [0..<length (slot_starts start d slot_end)] \<and>
            (\<forall>c. c \<in> set (slot_starts start d slot_end) \<longleftrightarrow>
               (\<exists>k::nat. c = start + int k * us_per_hour) \<and> c + d \<le> slot_end)"
    for start d slot_end
    using slot_starts_iff [of _ start d slot_end] by (simp add: slot_starts_def)
  from a b c show ?thesis by blast
qed

theorem window_slot_enumeration_witness:
  "\<exists>emitted.
     collect_suggestions example_uuid4 [saturday_event 9 59]
       (example_preferences 60 [saturday_morning]) example_week = Some (Inr emitted) \<and>
     strptime_HM (ph_start_time saturday_morning) = Inr (9, 0) \<and>
     strptime_HM (ph_end_time saturday_morning) = Inr (11, 0) \<and>
     map suggested_time
       (window_suggestions (example_preferences 60 [saturday_morning]) [saturday_event 9 59]
          (at_time (ymd 2026 11 7) 0 0) saturday_morning)
       = [at_time (ymd 2026 11 7) 10 0, at_time (ymd 2026 11 7) 10 0]"
proof -
  let ?p = "example_preferences 60 [saturday_morning]"
  have "case collect_suggestions example_uuid4 [saturday_event 9 59] ?p example_week of
          Some (Inr r) \<Rightarrow> True | _ \<Rightarrow> False"
    by code_simp
  then obtain emitted where
    g: "collect_suggestions example_uuid4 [saturday_event 9 59] ?p example_week = Some (Inr emitted)"
    by (auto split: option.splits sum.splits)
  have st: "strptime_HM (ph_start_time saturday_morning) = Inr (9, 0)" by code_simp
  have en: "strptime_HM (ph_end_time saturday_morning) = Inr (11, 0)" by code_simp
  from window_slot_enumeration [OF g] st en
  have "map suggested_time
          (window_suggestions ?p [saturday_event 9 59] (at_time (ymd 2026 11 7) 0 0) saturday_morning)
        = concat (map (\<lambda>c. replicate (length (find_nearby_stores (home_address ?p))) c)
            (filter (free_slot [saturday_event 9 59] (timedelta 0 0 (shopping_duration_minutes ?p)))
               (slot_starts (combine (date (at_time (ymd 2026 11 7) 0 0)) (9, 0))
                  (timedelta 0 0 (shopping_duration_minutes ?p))
                  (combine (date (at_time (ymd 2026 11 7) 0 0)) (11, 0)))))"
    by blast
  also have "\<dots> = [at_time (ymd 2026 11 7) 10 0, at_time (ymd 2026 11 7) 10 0]"
    by code_simp
  finally have m: "map suggested_time
          (window_suggestions ?p [saturday_event 9 59] (at_time (ymd 2026 11 7) 0 0) saturday_morning)
        = [at_time (ymd 2026 11 7) 10 0, at_time (ymd 2026 11 7) 10 0]" .
  show ?thesis
    by (rule exI [of _ emitted]) (simp only: g st en m)
qed

text \<open>
  A lookup in the mock calendar from 19:30 on 5 November to the start of the second
  event: the first event, which began at 19:00 and overlaps the interval, is not
  returned, and the second, which starts at the end of the interval, is.
\<close>

theorem calendar_lookup_counterexample:
  "map ev_id (get_calendar_events (MOCK_CALENDAR_EVENTS example_now) ''user-1''
                (at_time (ymd 2026 11 5) 19 30) (example_now 2 + timedelta 2 18 0)) = [''2''] \<and>
   map ev_id (filter (overlaps_half_open (at_time (ymd 2026 11 5) 19 30)
                        (example_now 2 + timedelta 2 18 0))
                (MOCK_CALENDAR_EVENTS example_now)) = [''1'']"
  by code_simp

text \<open>
  C3 (as amended): \<open>get_calendar_events\<close> returns, in the order of the calendar, exactly
  the events whose start time lies between the start and the end of the lookup, both
  included, whoever the user is. An event that starts before the start is never returned,
  and an event that starts at the end is returned.
\<close>

theorem calendar_lookup_by_start_time:
  "(\<forall>e. e \<in> set (get_calendar_events calendar user_id start_date end_date) \<longleftrightarrow>
         e \<in> set calendar \<and> start_date \<le> ev_start_time e \<and> ev_start_time e \<le> end_date) \<and>
   get_calendar_events calendar user_id start_date end_date
     = filter (\<lambda>e. e \<in> set (get_calendar_events calendar user_id start_date end_date)) calendar \<and>
   (\<forall>e. ev_start_time e < start_date \<longrightarrow>
         e \<notin> set (get_calendar_events calendar user_id start_date end_date)) \<and>
   (\<forall>e. e \<in> set calendar \<longrightarrow> start_date \<le> end_date \<longrightarrow> ev_start_time e = end_date \<longrightarrow>
         e \<in> set (get_calendar_events calendar user_id start_date end_date))"
proof -
  have "filter (\<lambda>e. start_date \<le> ev_start_time e \<and> ev_start_time e \<le> end_date) calendar
      = filter (\<lambda>e. e \<in> set calendar \<and> start_date \<le> ev_start_time e \<and> ev_start_time e \<le> end_date)
          calendar"
    by (rule filter_cong) auto
  then show ?thesis by (auto simp: get_calendar_events_def)
qed

theorem calendar_lookup_by_start_time_witness:
  "MOCK_CALENDAR_EVENTS example_now ! 0 \<in> set (MOCK_CALENDAR_EVENTS example_now) \<and>
   ev_start_time (MOCK_CALENDAR_EVENTS example_now ! 0) < at_time (ymd 2026 11 5) 19 30 \<and>
   overlaps_half_open (at_time (ymd 2026 11 5) 19 30) (example_now 2 + timedelta 2 18 0)
     (MOCK_CALENDAR_EVENTS example_now ! 0) \<and>
   MOCK_CALENDAR_EVENTS example_now ! 0
     \<notin> set (get_calendar_events (MOCK_CALENDAR_EVENTS example_now) ''user-1''
              (at_time (ymd 2026 11 5) 19 30) (example_now 2 + timedelta 2 18 0)) \<and>
   MOCK_CALENDAR_EVENTS example_now ! 1 \<in> set (MOCK_CALENDAR_EVENTS example_now) \<and>
   at_time (ymd 2026 11 5) 19 30 \<le> example_now 2 + timedelta 2 18 0 \<and>
   ev_start_time (MOCK_CALENDAR_EVENTS example_now ! 1) = example_now 2 + timedelta 2 18 0 \<and>
   MOCK_CALENDAR_EVENTS example_now ! 1
     \<in> set (get_calendar_events (MOCK_CALENDAR_EVENTS example_now) ''user-1''
              (at_time (ymd 2026 11 5) 19 30) (example_now 2 + timedelta 2 18 0))"
proof -
  have a: "MOCK_CALENDAR_EVENTS example_now ! 0 \<in> set (MOCK_CALENDAR_EVENTS example_now)"
    by code_simp
  have b: "ev_start_time (MOCK_CALENDAR_EVENTS example_now ! 0) < at_time (ymd 2026 11 5) 19 30"
    by code_simp
  have c: "overlaps_half_open (at_time (ymd 2026 11 5) 19 30) (example_now 2 + timedelta 2 18 0)
     (MOCK_CALENDAR_EVENTS example_now ! 0)"
    by code_simp
  have d: "MOCK_CALENDAR_EVENTS example_now ! 1 \<in> set (MOCK_CALENDAR_EVENTS example_now)"
    by code_simp
  have e: "at_time (ymd 2026 11 5) 19 30 \<le> example_now 2 + timedelta 2 18 0"
    by code_simp
  have f: "ev_start_time (MOCK_CALENDAR_EVENTS example_now ! 1) = example_now 2 + timedelta 2 18 0"
    by code_simp
  from calendar_lookup_by_start_time
    [of "MOCK_CALENDAR_EVENTS example_now" "''user-1''" "at_time (ymd 2026 11 5) 19 30"
        "example_now 2 + timedelta 2 18 0"]
    a b c d e f
  show ?thesis by blast
qed

text \<open>
  C8: approving the suggestion of a pending schedule succeeds and stores the
  identifier and the status. Approving the same suggestion again finds the schedule, but
  the update changes nothing, \<^verbatim>\<open>modified_count\<close> is 0, and the route raises 404
  "Schedule not found" for a schedule that exists.
\<close>

theorem approve_twice_not_found:
  "matches [(''id'', PStr ''schedule-1'')] (example_schedule_doc PNone ''pending'') \<and>
   approve_suggestion [example_schedule_doc PNone ''pending''] ''schedule-1'' ''suggestion-1''
     = (Inr [(''message'', ''Suggestion approved successfully'')],
        [example_schedule_doc (PStr ''suggestion-1'') ''approved'']) \<and>
   matches [(''id'', PStr ''schedule-1'')] (example_schedule_doc (PStr ''suggestion-1'') ''approved'') \<and>
   approve_suggestion [example_schedule_doc (PStr ''suggestion-1'') ''approved''] ''schedule-1''
       ''suggestion-1''
     = (Inl (HTTPException 404 ''Schedule not found''),
        [example_schedule_doc (PStr ''suggestion-1'') ''approved''])"
  by code_simp

text \<open>
  C9: for every schedule, and whatever the formatter and the parser of timestamps do,
  the suggestions of the document prepared for storage and parsed back are those of the
  original, in the same order, with the same identifiers, confidence scores and store
  data. The week start comes back as the string it was stored as, since its key ends in
  neither \<^verbatim>\<open>_at\<close> nor \<^verbatim>\<open>_time\<close>.
\<close>

theorem mongo_round_trip:
  "map (\<lambda>d. (map_of d ''id'', map_of d ''confidence_score'', map_of d ''store''))
       (suggestion_dicts (parse_from_mongo fromisoformat
                            (prepare_for_mongo isoformat (dict_WeeklySchedule w))))
     = map (\<lambda>d. (map_of d ''id'', map_of d ''confidence_score'', map_of d ''store''))
         (suggestion_dicts (dict_WeeklySchedule w)) \<and>
   map (\<lambda>d. (map_of d ''id'', map_of d ''confidence_score'', map_of d ''store''))
       (suggestion_dicts (parse_from_mongo fromisoformat
                            (prepare_for_mongo isoformat (dict_WeeklySchedule w))))
     = map (\<lambda>g. (Some (PStr (sg_id g)), Some (PFloat (confidence_score g)),
                 Some (PDict (dict_GroceryStore (store g)))))
         (ws_suggestions w) \<and>
   map_of (parse_from_mongo fromisoformat (prepare_for_mongo isoformat (dict_WeeklySchedule w)))
       ''week_start'' = Some (PStr (isoformat (ws_week_start w)))"
proof -
  have a: "suggestion_dicts (parse_from_mongo fromisoformat
                            (prepare_for_mongo isoformat (dict_WeeklySchedule w)))
     = map (\<lambda>g. parse_from_mongo fromisoformat (prepare_for_mongo isoformat (dict_ScheduleSuggestion g)))
         (ws_suggestions w)"
    unfolding parse_prepare_schedule
    by (simp add: suggestion_dicts_def comp_def)
  have b: "suggestion_dicts (dict_WeeklySchedule w) = map dict_ScheduleSuggestion (ws_suggestions w)"
    by (simp add: suggestion_dicts_def dict_WeeklySchedule_def comp_def)
  have c: "map_of (parse_from_mongo fromisoformat
                     (prepare_for_mongo isoformat (dict_WeeklySchedule w))) ''week_start''
             = Some (PStr (isoformat (ws_week_start w)))"
    unfolding parse_prepare_schedule by simp
  show ?thesis
    unfolding a b c
    by (simp add: dict_ScheduleSuggestion_def endswith_keys comp_def)
qed

end
